theory Spec2Isabelle
  imports Main "HOL-Library.List_Lexorder" "HOL-Library.Char_ord"
begin

section \<open>Text, dictionaries and errors\<close>

text \<open>
  Python strings are modelled as HOL strings, a character standing for the code point
  of its number. Python orders strings lexicographically
  by code point, with a proper prefix first: this is the order of \<open>List_Lexorder\<close>
  over \<open>Char_ord\<close>, so \<open>sorted(set(xs))\<close> is \<open>sort (remdups xs)\<close>.
\<close>

definition sorted_set :: "string list \<Rightarrow> string list" where
  "sorted_set xs = sort (remdups xs)"

text \<open>
  \<open>dict(pairs)\<close> and a dict comprehension insert the pairs from left to right; a key
  that comes again replaces the value stored before.
\<close>

definition dict :: "('k \<times> 'v) list \<Rightarrow> ('k \<rightharpoonup> 'v)" where
  "dict kvs = foldl (\<lambda>m (k, v). m(k \<mapsto> v)) Map.empty kvs"

text \<open>An f-string prints the value \<open>None\<close> as the four letters \<open>None\<close>.\<close>

fun fmt :: "string option \<Rightarrow> string" where
  "fmt None = ''None''"
| "fmt (Some s) = s"

datatype error =
    NotImplementedError string
  | AttributeError string

section \<open>The regular expressions of the comparator\<close>

text \<open>
  The patterns of \<open>sync.py\<close> use literals, the greedy repetitions \<open>*\<close> and \<open>+\<close> of
  a one-character class, alternation, named groups and one optional group. \<open>matches\<close>
  is Python's backtracking matcher for this fragment: it returns, in the order in which
  the matcher tries them, every way to match a prefix of the input, as the rest of the
  input and the groups captured. \<open>fullmatch\<close> is the first of them that consumes the
  whole input, as \<open>re.fullmatch\<close> is; the anchors \<open>^\<close> and \<open>$\<close> of the patterns add
  nothing to it.

  A character stands for the code point of its number, 0 to 255, and the character
  classes are those of Python's \<open>str\<close> patterns on these code points. \<open>\w\<close> is
  the underscore or a character that \<open>str.isalnum\<close> accepts: the ASCII letters and
  digits, and beyond ASCII the code points 170, 178, 179, 181, 185, 186, 188 to 190,
  192 to 214, 216 to 246 and 248 to 255. \<open>\S\<close> is anything but the white space
  characters, the code points 9 to 13, 28 to 32, 133 and 160. \<open>.\<close> is anything but
  the line feed.
\<close>

datatype cls = Word | NonSpace | Dot | NotLParen

definition is_word :: "char \<Rightarrow> bool" where
  "is_word ch = (let n = (of_char ch :: nat) in
     (48 \<le> n \<and> n \<le> 57) \<or> (65 \<le> n \<and> n \<le> 90) \<or> n = 95 \<or> (97 \<le> n \<and> n \<le> 122) \<or>
     n = 170 \<or> n = 178 \<or> n = 179 \<or> n = 181 \<or> n = 185 \<or> n = 186 \<or>
     (188 \<le> n \<and> n \<le> 190) \<or> (192 \<le> n \<and> n \<le> 214) \<or> (216 \<le> n \<and> n \<le> 246) \<or>
     (248 \<le> n \<and> n \<le> 255))"

definition is_space :: "char \<Rightarrow> bool" where
  "is_space ch = (let n = (of_char ch :: nat) in
     (9 \<le> n \<and> n \<le> 13) \<or> (28 \<le> n \<and> n \<le> 32) \<or> n = 133 \<or> n = 160)"

fun in_cls :: "cls \<Rightarrow> char \<Rightarrow> bool" where
  "in_cls Word ch = is_word ch"
| "in_cls NonSpace ch = (\<not> is_space ch)"
| "in_cls Dot ch = (ch \<noteq> CHR 0x0A)"
| "in_cls NotLParen ch = (ch \<noteq> CHR ''('')"

datatype regex =
    Lit string
  | Star cls
  | Plus cls
  | Seq regex regex
  | Alt regex regex
  | Group string regex
  | Opt regex

type_synonym groups = "string \<rightharpoonup> string"

fun matches :: "regex \<Rightarrow> string \<Rightarrow> groups \<Rightarrow> (string \<times> groups) list" where
  "matches (Lit l) s g = (if take (length l) s = l then [(drop (length l) s, g)] else [])"
| "matches (Star k) s g =
     map (\<lambda>i. (drop i s, g)) (rev [0 ..< Suc (length (takeWhile (in_cls k) s))])"
| "matches (Plus k) s g =
     map (\<lambda>i. (drop i s, g)) (rev [1 ..< Suc (length (takeWhile (in_cls k) s))])"
| "matches (Seq a b) s g = concat (map (\<lambda>(s', g'). matches b s' g') (matches a s g))"
| "matches (Alt a b) s g = matches a s g @ matches b s g"
| "matches (Group n r) s g =
     map (\<lambda>(s', g'). (s', g'(n \<mapsto> take (length s - length s') s))) (matches r s g)"
| "matches (Opt r) s g = matches r s g @ [(s, g)]"

definition fullmatch :: "regex \<Rightarrow> string \<Rightarrow> groups option" where
  "fullmatch r s = (case filter (\<lambda>(s', g'). s' = []) (matches r s Map.empty) of
     [] \<Rightarrow> None | (s', g') # _ \<Rightarrow> Some g')"

fun seqs :: "regex list \<Rightarrow> regex" where
  "seqs [] = Lit []"
| "seqs [r] = r"
| "seqs (r # rs) = Seq r (seqs rs)"

text \<open>\<open>m[name]\<close> for a group that takes part in every match of its pattern.\<close>

definition grp :: "groups \<Rightarrow> string \<Rightarrow> string" where
  "grp m n = (case m n of Some v \<Rightarrow> v | None \<Rightarrow> [])"

text \<open>\<^verbatim>\<open>^(?P<type>\w+)\((?P<size>.+)\)$\<close>\<close>

definition type_and_size_re :: regex where
  "type_and_size_re =
     seqs [Group ''type'' (Plus Word), Lit ''('', Group ''size'' (Plus Dot), Lit '')'']"

text \<open>\<^verbatim>\<open>^CREATE(?P<unique> UNIQUE|) INDEX \w+ ON (?P<table>\S+) USING (?P<algorithm>btree|gin) \((?P<columns>.*)\)$\<close>\<close>

definition index_def1_re :: regex where
  "index_def1_re =
     seqs [Lit ''CREATE'', Group ''unique'' (Alt (Lit '' UNIQUE'') (Lit '''')),
           Lit '' INDEX '', Plus Word, Lit '' ON '', Group ''table'' (Plus NonSpace),
           Lit '' USING '', Group ''algorithm'' (Alt (Lit ''btree'') (Lit ''gin'')),
           Lit '' ('', Group ''columns'' (Star Dot), Lit '')'']"

text \<open>\<^verbatim>\<open>^(?P<main>FOREIGN KEY \(.+\) REFERENCES [^(]+\(.*\))(?P<extra>.+)?$\<close>\<close>

definition foreign_key_main :: regex where
  "foreign_key_main =
     seqs [Lit ''FOREIGN KEY ('', Plus Dot, Lit '') REFERENCES '', Plus NotLParen,
           Lit ''('', Star Dot, Lit '')'']"

definition constraint_def1_re :: regex where
  "constraint_def1_re =
     Seq (Group ''main'' foreign_key_main) (Opt (Group ''extra'' (Plus Dot)))"

text \<open>\<^verbatim>\<open>^(?P<main>PRIMARY KEY \(.+\))$\<close>\<close>

definition constraint_def2_re :: regex where
  "constraint_def2_re = Group ''main'' (seqs [Lit ''PRIMARY KEY ('', Plus Dot, Lit '')''])"

text \<open>\<^verbatim>\<open>^(?P<main>UNIQUE \(.+\))$\<close>\<close>

definition constraint_def3_re :: regex where
  "constraint_def3_re = Group ''main'' (seqs [Lit ''UNIQUE ('', Plus Dot, Lit '')''])"

section \<open>The schema model\<close>

text \<open>
  The introspection document: a list of tables, each with its columns, indexes and
  constraints. A JSON \<open>null\<close> comment is \<open>None\<close>.
\<close>

record column =
  col_name :: string
  col_type :: string
  col_comment :: "string option"

record index =
  idx_name :: string
  idx_def :: string

record constraint =
  con_name :: string
  con_def :: string

record table =
  tbl_name :: string
  tbl_type :: string
  tbl_comment :: "string option"
  tbl_columns :: "column list"
  tbl_indexes :: "index list"
  tbl_constraints :: "constraint list"

record inspected_schema =
  data :: "table list"
  table_name_to_table :: "string \<rightharpoonup> table"
  table_name_to_column_name_to_column :: "string \<rightharpoonup> (string \<rightharpoonup> column)"

definition InspectedSchema :: "table list \<Rightarrow> inspected_schema" where
  "InspectedSchema tables =
     \<lparr> data = tables,
       table_name_to_table = dict (map (\<lambda>t. (tbl_name t, t)) tables),
       table_name_to_column_name_to_column =
         dict (map (\<lambda>t. (tbl_name t, dict (map (\<lambda>c. (col_name c, c)) (tbl_columns t)))) tables) \<rparr>"

definition table_names :: "inspected_schema \<Rightarrow> string list" where
  "table_names self = map tbl_name (data self)"

definition has_table :: "inspected_schema \<Rightarrow> string \<Rightarrow> bool" where
  "has_table self table_name = (table_name_to_table self table_name \<noteq> None)"

definition get_table :: "inspected_schema \<Rightarrow> string \<Rightarrow> table option" where
  "get_table self table_name = table_name_to_table self table_name"

text \<open>
  \<open>column_names\<close> calls \<open>.get\<close> on the result of \<open>get_table\<close>: on \<open>None\<close> Python
  raises AttributeError.
\<close>

definition none_get :: error where
  "none_get =
     AttributeError
       ([CHR 0x27] @ ''NoneType'' @ [CHR 0x27] @ '' object has no attribute '' @
        [CHR 0x27] @ ''get'' @ [CHR 0x27])"

definition column_names :: "inspected_schema \<Rightarrow> string \<Rightarrow> error + string list" where
  "column_names self table_name =
     (case get_table self table_name of
        None \<Rightarrow> Inl none_get
      | Some t \<Rightarrow> Inr (map col_name (tbl_columns t)))"

definition has_column :: "inspected_schema \<Rightarrow> string \<Rightarrow> string \<Rightarrow> bool" where
  "has_column self table_name column_name =
     (case table_name_to_column_name_to_column self table_name of
        None \<Rightarrow> False
      | Some cols \<Rightarrow> cols column_name \<noteq> None)"

definition get_column :: "inspected_schema \<Rightarrow> string \<Rightarrow> string \<Rightarrow> column option" where
  "get_column self table_name column_name =
     (case table_name_to_column_name_to_column self table_name of
        None \<Rightarrow> None
      | Some cols \<Rightarrow> cols column_name)"

section \<open>Findings\<close>

text \<open>
  Every \<open>print\<close> of the comparator is one finding; \<open>render\<close> is the line printed.
  A run of comparator code yields the findings printed so far and the exception that
  ended it, if any.
\<close>

datatype finding =
    TableNotExpected string
  | TableNotFound string
  | TableTypeMismatch string string string
  | TableCommentMismatch string "string option" "string option"
  | ColumnNotExpected string string
  | ColumnNotFound string string
  | ColumnTypeMismatch string string string string
  | ColumnTypeSizeMismatch string string string string
  | ColumnCommentMismatch string string "string option" "string option"
  | IndexNotExpected string string
  | IndexNotFound string string
  | ConstraintNotExpected string string
  | ConstraintNotFound string string
  | ConstraintMismatch string string "string option" "string option"

fun render :: "finding \<Rightarrow> string" where
  "render (TableNotExpected t) = t @ '': table not expected''"
| "render (TableNotFound t) = t @ '': table not found''"
| "render (TableTypeMismatch t expected_table_type actual_table_type) =
     t @ '': type mismatch: '' @ expected_table_type @ '' != '' @ actual_table_type"
| "render (TableCommentMismatch t actual expected) =
     t @ '': comment mismatch: '' @ fmt actual @ '' != '' @ fmt expected"
| "render (ColumnNotExpected t c) = t @ ''.'' @ c @ '': column not expected''"
| "render (ColumnNotFound t c) = t @ ''.'' @ c @ '': column not found''"
| "render (ColumnTypeMismatch t c actual expected) =
     t @ ''.'' @ c @ '': type mismatch: '' @ actual @ '' != '' @ expected"
| "render (ColumnTypeSizeMismatch t c actual expected) =
     t @ ''.'' @ c @ '': type size mismatch: '' @ actual @ '' != '' @ expected"
| "render (ColumnCommentMismatch t c actual expected) =
     t @ ''.'' @ c @ '': comment mismatch: '' @ fmt actual @ '' != '' @ fmt expected"
| "render (IndexNotExpected t i) = t @ '': index not expected: '' @ i"
| "render (IndexNotFound t i) = t @ '': index not found: '' @ i"
| "render (ConstraintNotExpected t k) = t @ '': constraint not expected: '' @ k"
| "render (ConstraintNotFound t k) = t @ '': constraint not found: '' @ k"
| "render (ConstraintMismatch t k actual expected) =
     t @ '': constraint '' @ k @ '' mismatch: '' @ fmt actual @ '' != '' @ fmt expected"

text \<open>The table a finding is reported for.\<close>

fun finding_table :: "finding \<Rightarrow> string" where
  "finding_table (TableNotExpected t) = t"
| "finding_table (TableNotFound t) = t"
| "finding_table (TableTypeMismatch t _ _) = t"
| "finding_table (TableCommentMismatch t _ _) = t"
| "finding_table (ColumnNotExpected t _) = t"
| "finding_table (ColumnNotFound t _) = t"
| "finding_table (ColumnTypeMismatch t _ _ _) = t"
| "finding_table (ColumnTypeSizeMismatch t _ _ _) = t"
| "finding_table (ColumnCommentMismatch t _ _ _) = t"
| "finding_table (IndexNotExpected t _) = t"
| "finding_table (IndexNotFound t _) = t"
| "finding_table (ConstraintNotExpected t _) = t"
| "finding_table (ConstraintNotFound t _) = t"
| "finding_table (ConstraintMismatch t _ _ _) = t"

type_synonym run = "finding list \<times> error option"

definition skip :: run where
  "skip = ([], None)"

definition print :: "finding \<Rightarrow> run" where
  "print f = ([f], None)"

definition raise :: "error \<Rightarrow> run" where
  "raise e = ([], Some e)"

text \<open>One statement after another: the second runs only when the first has not raised.\<close>

definition and_then :: "run \<Rightarrow> run \<Rightarrow> run" where
  "and_then p q = (case snd p of Some e \<Rightarrow> p | None \<Rightarrow> (fst p @ fst q, snd q))"

fun for_each :: "('a \<Rightarrow> run) \<Rightarrow> 'a list \<Rightarrow> run" where
  "for_each body [] = skip"
| "for_each body (x # xs) = and_then (body x) (for_each body xs)"

text \<open>A list comprehension whose element expression may raise: the first exception ends it.\<close>

fun comprehension :: "('a \<Rightarrow> error + 'b) \<Rightarrow> 'a list \<Rightarrow> error + 'b list" where
  "comprehension f [] = Inr []"
| "comprehension f (x # xs) =
     (case f x of
        Inl e \<Rightarrow> Inl e
      | Inr y \<Rightarrow> (case comprehension f xs of Inl e \<Rightarrow> Inl e | Inr ys \<Rightarrow> Inr (y # ys)))"

section \<open>The comparator\<close>

record comparator =
  expected :: inspected_schema
  actual :: inspected_schema
  equivalent_types :: "string list list"

definition Comparator :: "inspected_schema \<Rightarrow> inspected_schema \<Rightarrow> string list list \<Rightarrow> comparator" where
  "Comparator e a eqs = \<lparr> expected = e, actual = a, equivalent_types = eqs \<rparr>"

text \<open>
  The methods below keep the names of \<open>sync.py\<close> without the leading underscore.
  \<open>get_table(...).get(...)\<close> and \<open>get_column(...).get(...)\<close> raise AttributeError on
  \<open>None\<close>, the expected side being evaluated first.
\<close>

definition compare_table_type :: "comparator \<Rightarrow> string \<Rightarrow> run" where
  "compare_table_type self table_name =
     (case get_table (expected self) table_name of
        None \<Rightarrow> raise none_get
      | Some te \<Rightarrow>
     (case get_table (actual self) table_name of
        None \<Rightarrow> raise none_get
      | Some ta \<Rightarrow>
          if tbl_type te \<noteq> tbl_type ta
          then print (TableTypeMismatch table_name (tbl_type te) (tbl_type ta))
          else skip))"

definition compare_table_comment :: "comparator \<Rightarrow> string \<Rightarrow> run" where
  "compare_table_comment self table_name =
     (case get_table (expected self) table_name of
        None \<Rightarrow> raise none_get
      | Some te \<Rightarrow>
     (case get_table (actual self) table_name of
        None \<Rightarrow> raise none_get
      | Some ta \<Rightarrow>
          if tbl_comment te \<noteq> tbl_comment ta
          then print (TableCommentMismatch table_name (tbl_comment ta) (tbl_comment te))
          else skip))"

text \<open>
  \<open>split_type\<close> is the pair \<open>(expected_type, expected_size)\<close> (or the actual one) of
  \<open>_compare_column_type\<close>: the groups of \<open>type_and_size_re\<close>, or the raw type and
  \<open>None\<close> when the pattern does not match.
\<close>

definition split_type :: "string \<Rightarrow> string \<times> string option" where
  "split_type raw =
     (case fullmatch type_and_size_re raw of
        Some m \<Rightarrow> (grp m ''type'', m ''size'')
      | None \<Rightarrow> (raw, None))"

definition compare_column_type :: "comparator \<Rightarrow> string \<Rightarrow> string \<Rightarrow> run" where
  "compare_column_type self table_name column_name =
     (case get_column (expected self) table_name column_name of
        None \<Rightarrow> raise none_get
      | Some ce \<Rightarrow>
     (case get_column (actual self) table_name column_name of
        None \<Rightarrow> raise none_get
      | Some ca \<Rightarrow>
          let expected_raw = col_type ce; actual_raw = col_type ca;
              (expected_type, expected_size) = split_type expected_raw;
              (actual_type, actual_size) = split_type actual_raw
          in if list_ex (\<lambda>types. expected_type \<in> set types \<and> actual_type \<in> set types)
                  (equivalent_types self)
             then skip
             else if expected_type \<noteq> actual_type
             then print (ColumnTypeMismatch table_name column_name actual_raw expected_raw)
             else if expected_size \<noteq> actual_size
             then print (ColumnTypeSizeMismatch table_name column_name actual_raw expected_raw)
             else skip))"

definition compare_column_comment :: "comparator \<Rightarrow> string \<Rightarrow> string \<Rightarrow> run" where
  "compare_column_comment self table_name column_name =
     (case get_column (expected self) table_name column_name of
        None \<Rightarrow> raise none_get
      | Some ce \<Rightarrow>
     (case get_column (actual self) table_name column_name of
        None \<Rightarrow> raise none_get
      | Some ca \<Rightarrow>
          if col_comment ce \<noteq> col_comment ca
          then print (ColumnCommentMismatch table_name column_name (col_comment ca) (col_comment ce))
          else skip))"

definition compare_column :: "comparator \<Rightarrow> string \<Rightarrow> string \<Rightarrow> run" where
  "compare_column self table_name column_name =
     (if get_column (expected self) table_name column_name = None
      then print (ColumnNotExpected table_name column_name)
      else if get_column (actual self) table_name column_name = None
      then print (ColumnNotFound table_name column_name)
      else and_then (compare_column_type self table_name column_name)
                 (compare_column_comment self table_name column_name))"

definition compare_table_columns :: "comparator \<Rightarrow> string \<Rightarrow> run" where
  "compare_table_columns self table_name =
     (case column_names (expected self) table_name of
        Inl e \<Rightarrow> raise e
      | Inr expected_columns \<Rightarrow>
     (case column_names (actual self) table_name of
        Inl e \<Rightarrow> raise e
      | Inr actual_columns \<Rightarrow>
          for_each (compare_column self table_name)
            (sorted_set (expected_columns @ actual_columns))))"

definition normalize_index_definition :: "string \<Rightarrow> error + string" where
  "normalize_index_definition definition =
     (case fullmatch index_def1_re definition of
        Some m \<Rightarrow>
          Inr (''CREATE'' @ grp m ''unique'' @ '' INDEX ... ON '' @ grp m ''table'' @
               '' USING '' @ grp m ''algorithm'' @ '' ('' @ grp m ''columns'' @ '')'')
      | None \<Rightarrow> Inl (NotImplementedError (''Cannot parse index definition: '' @ definition)))"

definition normalize_constraint_definition :: "string \<Rightarrow> error + (string \<times> string option)" where
  "normalize_constraint_definition definition =
     (case fullmatch constraint_def1_re definition of
        Some m \<Rightarrow> Inr (grp m ''main'', m ''extra'')
      | None \<Rightarrow>
     (case fullmatch constraint_def2_re definition of
        Some m \<Rightarrow> Inr (grp m ''main'', None)
      | None \<Rightarrow>
     (case fullmatch constraint_def3_re definition of
        Some m \<Rightarrow> Inr (grp m ''main'', None)
      | None \<Rightarrow>
          Inl (NotImplementedError (''Cannot parse constraint definition: '' @ definition)))))"

text \<open>The body of the loop over \<open>all\<close> in \<open>_compare_table_indexes\<close>.\<close>

definition compare_index :: "string \<Rightarrow> string list \<Rightarrow> string list \<Rightarrow> string \<Rightarrow> run" where
  "compare_index table_name expected_defs actual_defs index =
     (if index \<notin> set expected_defs then print (IndexNotExpected table_name index)
      else if index \<notin> set actual_defs then print (IndexNotFound table_name index)
      else skip)"

definition compare_table_indexes :: "comparator \<Rightarrow> string \<Rightarrow> run" where
  "compare_table_indexes self table_name =
     (case get_table (expected self) table_name of
        None \<Rightarrow> raise none_get
      | Some te \<Rightarrow>
     (case comprehension (\<lambda>index. normalize_index_definition (idx_def index)) (tbl_indexes te) of
        Inl e \<Rightarrow> raise e
      | Inr expected_defs \<Rightarrow>
     (case get_table (actual self) table_name of
        None \<Rightarrow> raise none_get
      | Some ta \<Rightarrow>
     (case comprehension (\<lambda>index. normalize_index_definition (idx_def index)) (tbl_indexes ta) of
        Inl e \<Rightarrow> raise e
      | Inr actual_defs \<Rightarrow>
          for_each (compare_index table_name expected_defs actual_defs)
            (sorted_set (expected_defs @ actual_defs))))))"

text \<open>The body of the loop over \<open>keys\<close> in \<open>_compare_table_constraints\<close>.\<close>

definition compare_constraint ::
  "string \<Rightarrow> (string \<rightharpoonup> string option) \<Rightarrow> (string \<rightharpoonup> string option) \<Rightarrow> string \<Rightarrow> run" where
  "compare_constraint table_name expected_map actual_map key =
     (case expected_map key of
        None \<Rightarrow> print (ConstraintNotExpected table_name key)
      | Some expected_extra \<Rightarrow>
     (case actual_map key of
        None \<Rightarrow> print (ConstraintNotFound table_name key)
      | Some actual_extra \<Rightarrow>
          if expected_extra \<noteq> actual_extra
          then print (ConstraintMismatch table_name key actual_extra expected_extra)
          else skip))"

definition compare_table_constraints :: "comparator \<Rightarrow> string \<Rightarrow> run" where
  "compare_table_constraints self table_name =
     (case get_table (expected self) table_name of
        None \<Rightarrow> raise none_get
      | Some te \<Rightarrow>
     (case comprehension (\<lambda>c. normalize_constraint_definition (con_def c)) (tbl_constraints te) of
        Inl e \<Rightarrow> raise e
      | Inr expected_pairs \<Rightarrow>
     (case get_table (actual self) table_name of
        None \<Rightarrow> raise none_get
      | Some ta \<Rightarrow>
     (case comprehension (\<lambda>c. normalize_constraint_definition (con_def c)) (tbl_constraints ta) of
        Inl e \<Rightarrow> raise e
      | Inr actual_pairs \<Rightarrow>
          for_each (compare_constraint table_name (dict expected_pairs) (dict actual_pairs))
            (sorted_set (map fst expected_pairs @ map fst actual_pairs))))))"

definition compare_table :: "comparator \<Rightarrow> string \<Rightarrow> run" where
  "compare_table self table_name =
     (if \<not> has_table (expected self) table_name then print (TableNotExpected table_name)
      else if \<not> has_table (actual self) table_name then print (TableNotFound table_name)
      else and_then (compare_table_type self table_name)
          (and_then (compare_table_comment self table_name)
          (and_then (compare_table_columns self table_name)
          (and_then (compare_table_indexes self table_name)
                    (compare_table_constraints self table_name)))))"

definition compare :: "comparator \<Rightarrow> run" where
  "compare self =
     for_each (compare_table self)
       (sorted_set (table_names (expected self) @ table_names (actual self)))"

text \<open>The lines a run prints.\<close>

definition printed :: "run \<Rightarrow> string list" where
  "printed r = map render (fst r)"

section \<open>Recognized definitions\<close>

text \<open>
  An index definition is recognized when the index pattern matches it, a constraint
  definition when one of the three constraint patterns does. A table name offends when
  both schemas have the table and one of the two tables holds a definition that is not
  recognized.
\<close>

definition index_recognized :: "string \<Rightarrow> bool" where
  "index_recognized d = (fullmatch index_def1_re d \<noteq> None)"

definition constraint_recognized :: "string \<Rightarrow> bool" where
  "constraint_recognized d =
     (fullmatch constraint_def1_re d \<noteq> None \<or> fullmatch constraint_def2_re d \<noteq> None \<or>
      fullmatch constraint_def3_re d \<noteq> None)"

definition table_recognized :: "table \<Rightarrow> bool" where
  "table_recognized t =
     (list_all (\<lambda>i. index_recognized (idx_def i)) (tbl_indexes t) \<and>
      list_all (\<lambda>c. constraint_recognized (con_def c)) (tbl_constraints t))"

definition offending :: "comparator \<Rightarrow> string \<Rightarrow> bool" where
  "offending self table_name =
     (case get_table (expected self) table_name of
        None \<Rightarrow> False
      | Some te \<Rightarrow>
     (case get_table (actual self) table_name of
        None \<Rightarrow> False
      | Some ta \<Rightarrow> \<not> (table_recognized te \<and> table_recognized ta)))"

text \<open>The names \<open>compare\<close> loops over.\<close>

definition all_table_names :: "comparator \<Rightarrow> string list" where
  "all_table_names self = sorted_set (table_names (expected self) @ table_names (actual self))"

text \<open>
  The exception that an unrecognized definition of a table raises, and the exception
  that the comparison of a table name raises.
\<close>

definition index_error :: "table \<Rightarrow> error \<Rightarrow> bool" where
  "index_error t e \<longleftrightarrow>
     (\<exists>i\<in>set (tbl_indexes t). \<not> index_recognized (idx_def i) \<and>
        e = NotImplementedError (''Cannot parse index definition: '' @ idx_def i))"

definition constraint_error :: "table \<Rightarrow> error \<Rightarrow> bool" where
  "constraint_error t e \<longleftrightarrow>
     (\<exists>c\<in>set (tbl_constraints t). \<not> constraint_recognized (con_def c) \<and>
        e = NotImplementedError (''Cannot parse constraint definition: '' @ con_def c))"

definition table_error :: "comparator \<Rightarrow> string \<Rightarrow> error \<Rightarrow> bool" where
  "table_error self n e \<longleftrightarrow>
     (\<exists>te ta. get_table (expected self) n = Some te \<and> get_table (actual self) n = Some ta \<and>
        (index_error te e \<or> index_error ta e \<or> constraint_error te e \<or> constraint_error ta e))"

text \<open>
  Two index definitions that are identical except for the index name: the same text
  before the name, \<open>CREATE INDEX\<close> or \<open>CREATE UNIQUE INDEX\<close>, two names, and the same
  text after them.
\<close>

definition same_but_name :: "string \<Rightarrow> string \<Rightarrow> bool" where
  "same_but_name d1 d2 \<longleftrightarrow>
     (\<exists>u n1 n2 rest.
        (u = [] \<or> u = '' UNIQUE'') \<and>
        n1 \<noteq> [] \<and> list_all is_word n1 \<and> n2 \<noteq> [] \<and> list_all is_word n2 \<and>
        d1 = ''CREATE'' @ u @ '' INDEX '' @ n1 @ rest \<and>
        d2 = ''CREATE'' @ u @ '' INDEX '' @ n2 @ rest)"

text \<open>
  For the order in which the foreign key pattern tries its matches: a text without a
  line feed is what \<open>.*\<close> and \<open>.+\<close> can consume whole, and a list of matches prefers
  the end of the input when the first of its rests without a line feed, if there is
  one, is the empty rest.
\<close>

definition dot_only :: "string \<Rightarrow> bool" where
  "dot_only s = list_all (in_cls Dot) s"

definition prefers_end :: "(string \<times> groups) list \<Rightarrow> bool" where
  "prefers_end ms =
     (case filter (\<lambda>(s', g'). dot_only s') ms of [] \<Rightarrow> True | (s', g') # _ \<Rightarrow> s' = [])"

definition ends_with_paren :: "string \<Rightarrow> bool" where
  "ends_with_paren s = (s = [] \<or> last s = CHR '')'')"

section \<open>Example schemas\<close>

definition orders_table :: table where
  "orders_table =
     \<lparr> tbl_name = ''orders'', tbl_type = ''BASE TABLE'', tbl_comment = None,
       tbl_columns = [\<lparr> col_name = ''id'', col_type = ''int4'', col_comment = None \<rparr>],
       tbl_indexes = [], tbl_constraints = [] \<rparr>"

definition hash_index_table :: table where
  "hash_index_table =
     \<lparr> tbl_name = ''accounts'', tbl_type = ''BASE TABLE'', tbl_comment = None,
       tbl_columns = [\<lparr> col_name = ''id'', col_type = ''int4'', col_comment = None \<rparr>],
       tbl_indexes = [\<lparr> idx_name = ''x'', idx_def = ''CREATE INDEX x ON t USING hash (a)'' \<rparr>],
       tbl_constraints = [] \<rparr>"

definition only_expected_example :: comparator where
  "only_expected_example = Comparator (InspectedSchema [orders_table]) (InspectedSchema []) []"

definition only_actual_example :: comparator where
  "only_actual_example = Comparator (InspectedSchema []) (InspectedSchema [orders_table]) []"

definition aborting_example :: comparator where
  "aborting_example =
     Comparator (InspectedSchema [hash_index_table, orders_table]) (InspectedSchema [hash_index_table]) []"

definition aborting_example2 :: comparator where
  "aborting_example2 =
     Comparator (InspectedSchema [hash_index_table]) (InspectedSchema [orders_table, hash_index_table]) []"

definition products_table :: "string \<Rightarrow> table" where
  "products_table price_type =
     \<lparr> tbl_name = ''products'', tbl_type = ''BASE TABLE'', tbl_comment = None,
       tbl_columns = [\<lparr> col_name = ''id'', col_type = ''int4'', col_comment = None \<rparr>,
                      \<lparr> col_name = ''price'', col_type = price_type, col_comment = Some ''net'' \<rparr>],
       tbl_indexes = [], tbl_constraints = [] \<rparr>"

definition numeric_example :: comparator where
  "numeric_example =
     Comparator (InspectedSchema [products_table ''numeric(10,2)''])
       (InspectedSchema [products_table ''numeric(10,4)'']) []"

definition varchar_example :: comparator where
  "varchar_example =
     Comparator (InspectedSchema [products_table ''varchar(10)''])
       (InspectedSchema [products_table ''varchar(20)'']) [[''varchar'', ''text'']]"

definition price_column :: "string \<Rightarrow> column" where
  "price_column price_type =
     \<lparr> col_name = ''price'', col_type = price_type, col_comment = Some ''net'' \<rparr>"

definition users_table :: "string \<Rightarrow> table" where
  "users_table index_def =
     \<lparr> tbl_name = ''users'', tbl_type = ''BASE TABLE'', tbl_comment = Some ''accounts'',
       tbl_columns = [\<lparr> col_name = ''id'', col_type = ''int4'', col_comment = None \<rparr>,
                      \<lparr> col_name = ''email'', col_type = ''varchar(255)'', col_comment = None \<rparr>],
       tbl_indexes = [\<lparr> idx_name = ''idx'', idx_def = index_def \<rparr>],
       tbl_constraints =
         [\<lparr> con_name = ''users_pkey'', con_def = ''PRIMARY KEY (id)'' \<rparr>,
          \<lparr> con_name = ''users_org_fkey'',
            con_def = ''FOREIGN KEY (org_id) REFERENCES orgs(id) ON DELETE CASCADE'' \<rparr>,
          \<lparr> con_name = ''users_email_key'', con_def = ''UNIQUE (email)'' \<rparr>] \<rparr>"

definition members_table :: "string list \<Rightarrow> table" where
  "members_table constraint_defs =
     \<lparr> tbl_name = ''members'', tbl_type = ''BASE TABLE'', tbl_comment = None,
       tbl_columns = [\<lparr> col_name = ''org_id'', col_type = ''int4'', col_comment = None \<rparr>],
       tbl_indexes = [],
       tbl_constraints = map (\<lambda>d. \<lparr> con_name = ''members_org_fkey'', con_def = d \<rparr>) constraint_defs \<rparr>"

definition duplicate_key_example :: comparator where
  "duplicate_key_example =
     Comparator
       (InspectedSchema [members_table
          [''FOREIGN KEY (org_id) REFERENCES orgs(id) ON DELETE CASCADE'',
           ''PRIMARY KEY (id)'',
           ''FOREIGN KEY (org_id) REFERENCES orgs(id) ON DELETE SET NULL'']])
       (InspectedSchema [members_table
          [''UNIQUE (org_id)'',
           ''FOREIGN KEY (org_id) REFERENCES orgs(id) ON DELETE CASCADE'']]) []"

definition index_name_example :: comparator where
  "index_name_example =
     Comparator (InspectedSchema [users_table ''CREATE INDEX idx_1 ON users USING btree (id)''])
       (InspectedSchema [users_table ''CREATE INDEX idx_42 ON users USING btree (id)'']) []"

text \<open>Definitions and types with characters beyond ASCII: \<open>0xE9\<close> is a letter, \<open>0xA0\<close> a space.\<close>

definition accounts_table :: "string \<Rightarrow> table" where
  "accounts_table index_def =
     \<lparr> tbl_name = ''accounts'', tbl_type = ''BASE TABLE'', tbl_comment = None,
       tbl_columns = [\<lparr> col_name = ''id'', col_type = ''int4'', col_comment = None \<rparr>],
       tbl_indexes = [\<lparr> idx_name = ''i'', idx_def = index_def \<rparr>],
       tbl_constraints = [] \<rparr>"

definition accented_name_example :: comparator where
  "accented_name_example =
     Comparator
       (InspectedSchema [accounts_table (''CREATE INDEX idx_'' @ [CHR 0xE9] @ '' ON accounts USING btree (id)''),
                         orders_table])
       (InspectedSchema [accounts_table (''CREATE INDEX idx_'' @ [CHR 0xE9] @ '' ON accounts USING btree (id)'')])
       []"

definition no_break_space_example :: comparator where
  "no_break_space_example =
     Comparator
       (InspectedSchema [accounts_table (''CREATE INDEX i ON a'' @ [CHR 0xA0] @ ''b USING btree (c)''),
                         orders_table])
       (InspectedSchema [accounts_table (''CREATE INDEX i ON a'' @ [CHR 0xA0] @ ''b USING btree (c)'')])
       []"

definition accented_type_example :: comparator where
  "accented_type_example =
     Comparator (InspectedSchema [products_table (''num'' @ [CHR 0xE9] @ ''ro(10)'')])
       (InspectedSchema [products_table (''num'' @ [CHR 0xE9] @ ''ro(20)'')]) []"

definition accented_equivalence_example :: comparator where
  "accented_equivalence_example =
     Comparator (InspectedSchema [products_table (''num'' @ [CHR 0xE9] @ ''ro(10)'')])
       (InspectedSchema [products_table ''text'']) [[''num'' @ [CHR 0xE9] @ ''ro'', ''text'']]"

section \<open>Dictionaries and lookups\<close>

lemma foldl_upd_map_of:
  "foldl (\<lambda>m (k, v). m(k \<mapsto> v)) m kvs = m ++ map_of (rev kvs)"
  by (induction kvs arbitrary: m)
     (auto simp: map_add_upd_left fun_eq_iff map_add_def split: option.splits)

lemma dict_map_of: "dict kvs = map_of (rev kvs)"
  by (simp add: dict_def foldl_upd_map_of)

lemma dict_None_iff: "dict kvs k = None \<longleftrightarrow> k \<notin> fst ` set kvs"
  by (simp add: dict_map_of map_of_eq_None_iff)

lemma dict_snoc: "dict (kvs @ [(k, v)]) = (dict kvs)(k \<mapsto> v)"
  by (simp add: dict_def)

lemma get_table_None_iff:
  "get_table (InspectedSchema tables) n = None \<longleftrightarrow> n \<notin> set (table_names (InspectedSchema tables))"
  by (simp add: get_table_def InspectedSchema_def table_names_def dict_None_iff image_image)

lemma has_table_iff:
  "has_table (InspectedSchema tables) n \<longleftrightarrow> n \<in> set (table_names (InspectedSchema tables))"
  by (simp add: has_table_def InspectedSchema_def table_names_def dict_None_iff image_image)

lemma columns_map_None_iff:
  "table_name_to_column_name_to_column (InspectedSchema tables) n = None
     \<longleftrightarrow> n \<notin> set (table_names (InspectedSchema tables))"
  by (simp add: InspectedSchema_def table_names_def dict_None_iff image_image)

text \<open>
  Claim C10. For a table name that is not in the schema, \<open>get_table\<close> and
  \<open>get_column\<close> return \<open>None\<close> and \<open>has_column\<close> returns false, but
  \<open>column_names\<close> raises: it calls \<open>.get\<close> on the \<open>None\<close> that \<open>get_table\<close>
  returned.
\<close>

theorem absent_table_lookups:
  assumes "table_name \<notin> set (table_names (InspectedSchema tables))"
  shows "get_table (InspectedSchema tables) table_name = None
       \<and> get_column (InspectedSchema tables) table_name column_name = None
       \<and> has_column (InspectedSchema tables) table_name column_name = False
       \<and> column_names (InspectedSchema tables) table_name = Inl none_get"
proof -
  have t: "get_table (InspectedSchema tables) table_name = None"
    using assms by (simp add: get_table_None_iff)
  have c: "table_name_to_column_name_to_column (InspectedSchema tables) table_name = None"
    using assms by (simp add: columns_map_None_iff)
  show ?thesis
    by (simp add: t c get_column_def has_column_def column_names_def)
qed

theorem absent_table_lookups_witness:
  "get_table (InspectedSchema [orders_table]) ''users'' = None
   \<and> get_column (InspectedSchema [orders_table]) ''users'' ''id'' = None
   \<and> has_column (InspectedSchema [orders_table]) ''users'' ''id'' = False
   \<and> column_names (InspectedSchema [orders_table]) ''users'' = Inl none_get"
proof -
  have h: "''users'' \<notin> set (table_names (InspectedSchema [orders_table]))"
    by (simp add: table_names_def InspectedSchema_def orders_table_def)
  show ?thesis
    by (rule absent_table_lookups [OF h])
qed

section \<open>Runs, loops and comprehensions\<close>

lemma and_then_skip [simp]: "and_then skip q = q" "and_then p skip = p"
  by (cases q; cases p; auto simp: and_then_def skip_def split: option.splits)+

lemma snd_and_then: "snd (and_then p q) = (case snd p of Some e \<Rightarrow> Some e | None \<Rightarrow> snd q)"
  by (simp add: and_then_def split: option.splits)

lemma fst_and_then: "fst (and_then p q) = (case snd p of Some e \<Rightarrow> fst p | None \<Rightarrow> fst p @ fst q)"
  by (simp add: and_then_def split: option.splits)

lemma for_each_all_skip: "(\<And>x. x \<in> set xs \<Longrightarrow> body x = skip) \<Longrightarrow> for_each body xs = skip"
  by (induction xs) auto

lemma for_each_ok:
  "(\<And>x. x \<in> set xs \<Longrightarrow> snd (body x) = None) \<Longrightarrow>
     for_each body xs = (concat (map (\<lambda>x. fst (body x)) xs), None)"
  by (induction xs) (auto simp: and_then_def skip_def)

lemma for_each_raise:
  "(\<And>y. y \<in> set pre \<Longrightarrow> snd (body y) = None) \<Longrightarrow> snd (body x) = Some e \<Longrightarrow>
     for_each body (pre @ x # post) = (concat (map (\<lambda>x. fst (body x)) (pre @ [x])), Some e)"
  by (induction pre) (auto simp: and_then_def skip_def prod_eq_iff)

lemma for_each_cases:
  "(snd (for_each body xs) = None \<and> (\<forall>x\<in>set xs. snd (body x) = None)) \<or>
   (\<exists>pre x post e. xs = pre @ x # post \<and> (\<forall>y\<in>set pre. snd (body y) = None) \<and> snd (body x) = Some e
       \<and> snd (for_each body xs) = Some e)"
proof (induction xs)
  case Nil
  then show ?case by (simp add: skip_def)
next
  case (Cons a xs)
  show ?case
  proof (cases "snd (body a)")
    case None
    from Cons show ?thesis
    proof
      assume "snd (for_each body xs) = None \<and> (\<forall>x\<in>set xs. snd (body x) = None)"
      then show ?thesis using None by (simp add: snd_and_then)
    next
      assume "\<exists>pre x post e. xs = pre @ x # post \<and> (\<forall>y\<in>set pre. snd (body y) = None) \<and> snd (body x) = Some e
       \<and> snd (for_each body xs) = Some e"
      then obtain pre x post e where h: "xs = pre @ x # post" "\<forall>y\<in>set pre. snd (body y) = None"
        "snd (body x) = Some e" "snd (for_each body xs) = Some e" by blast
      have "a # xs = (a # pre) @ x # post" using h by simp
      moreover have "\<forall>y\<in>set (a # pre). snd (body y) = None" using h None by simp
      moreover have "snd (for_each body (a # xs)) = Some e" using h None by (simp add: snd_and_then)
      ultimately show ?thesis using h(3) by blast
    qed
  next
    case (Some e)
    have "a # xs = [] @ a # xs" by simp
    moreover have "snd (for_each body (a # xs)) = Some e" using Some by (simp add: snd_and_then)
    ultimately show ?thesis using Some by (metis empty_iff list.set(1))
  qed
qed

lemma comprehension_ok:
  "(\<And>x. x \<in> set xs \<Longrightarrow> f x = Inr (h x)) \<Longrightarrow> comprehension f xs = Inr (map h xs)"
  by (induction xs) (auto split: sum.splits)

lemma comprehension_Inr_iff:
  "(\<exists>ys. comprehension f xs = Inr ys) \<longleftrightarrow> (\<forall>x\<in>set xs. \<exists>y. f x = Inr y)"
  by (induction xs) (auto split: sum.splits)

lemma comprehension_Inl:
  "comprehension f xs = Inl e \<Longrightarrow> \<exists>x\<in>set xs. f x = Inl e"
  by (induction xs arbitrary: e) (auto split: sum.splits)

lemma comprehension_Inr_map:
  "comprehension f xs = Inr ys \<Longrightarrow> list_all2 (\<lambda>x y. f x = Inr y) xs ys"
  by (induction xs arbitrary: ys) (auto split: sum.splits)

lemma fst_for_each_subset:
  "f \<in> set (fst (for_each body xs)) \<Longrightarrow> \<exists>x\<in>set xs. f \<in> set (fst (body x))"
  by (induction xs) (auto simp: skip_def fst_and_then split: option.splits)

lemma run_simps [simp]:
  "fst skip = []" "snd skip = None" "fst (print f) = [f]" "snd (print f) = None"
  "fst (raise e) = []" "snd (raise e) = Some e"
  by (simp_all add: skip_def print_def raise_def)

lemma set_sorted_set [simp]: "set (sorted_set xs) = set xs"
  by (simp add: sorted_set_def)

lemma sorted_sorted_set: "sorted (sorted_set xs)" "distinct (sorted_set xs)"
  by (simp_all add: sorted_set_def)

lemma has_table_get_table: "has_table s n \<longleftrightarrow> get_table s n \<noteq> None"
  by (simp add: has_table_def get_table_def)

subsection \<open>Findings of a table comparison are about that table\<close>

lemma compare_table_type_table:
  "f \<in> set (fst (compare_table_type self n)) \<Longrightarrow> finding_table f = n"
  by (auto simp: compare_table_type_def split: option.splits if_splits)

lemma compare_table_comment_table:
  "f \<in> set (fst (compare_table_comment self n)) \<Longrightarrow> finding_table f = n"
  by (auto simp: compare_table_comment_def split: option.splits if_splits)

lemma compare_column_type_table:
  "f \<in> set (fst (compare_column_type self n c)) \<Longrightarrow> finding_table f = n"
  by (auto simp: compare_column_type_def Let_def split: option.splits if_splits prod.splits)

lemma compare_column_comment_table:
  "f \<in> set (fst (compare_column_comment self n c)) \<Longrightarrow> finding_table f = n"
  by (auto simp: compare_column_comment_def split: option.splits if_splits)

lemma compare_column_table:
  "f \<in> set (fst (compare_column self n c)) \<Longrightarrow> finding_table f = n"
  by (auto simp: compare_column_def fst_and_then
      dest: compare_column_type_table compare_column_comment_table split: option.splits if_splits)

lemma compare_table_columns_table:
  "f \<in> set (fst (compare_table_columns self n)) \<Longrightarrow> finding_table f = n"
  by (auto simp: compare_table_columns_def
      dest!: fst_for_each_subset dest: compare_column_table split: sum.splits)

lemma compare_table_indexes_table:
  "f \<in> set (fst (compare_table_indexes self n)) \<Longrightarrow> finding_table f = n"
  by (auto simp: compare_table_indexes_def compare_index_def
      dest!: fst_for_each_subset split: sum.splits option.splits if_splits)

lemma compare_table_constraints_table:
  "f \<in> set (fst (compare_table_constraints self n)) \<Longrightarrow> finding_table f = n"
  by (auto simp: compare_table_constraints_def compare_constraint_def
      dest!: fst_for_each_subset split: sum.splits option.splits if_splits)

lemma compare_table_table:
  "f \<in> set (fst (compare_table self n)) \<Longrightarrow> finding_table f = n"
  by (auto simp: compare_table_def fst_and_then
      dest: compare_table_type_table compare_table_comment_table compare_table_columns_table
        compare_table_indexes_table compare_table_constraints_table
      split: option.splits if_splits)

subsection \<open>Which parts of a table comparison raise\<close>

lemma compare_table_type_ok:
  "get_table (expected self) n \<noteq> None \<Longrightarrow> get_table (actual self) n \<noteq> None \<Longrightarrow>
     snd (compare_table_type self n) = None"
  by (auto simp: compare_table_type_def)

lemma compare_table_comment_ok:
  "get_table (expected self) n \<noteq> None \<Longrightarrow> get_table (actual self) n \<noteq> None \<Longrightarrow>
     snd (compare_table_comment self n) = None"
  by (auto simp: compare_table_comment_def)

lemma compare_column_ok: "snd (compare_column self n c) = None"
  by (auto simp: compare_column_def compare_column_type_def compare_column_comment_def
      snd_and_then Let_def split: option.splits prod.splits)

lemma for_each_snd_None:
  "(\<And>x. x \<in> set xs \<Longrightarrow> snd (body x) = None) \<Longrightarrow> snd (for_each body xs) = None"
  by (simp add: for_each_ok)

lemma compare_table_columns_ok:
  "get_table (expected self) n \<noteq> None \<Longrightarrow> get_table (actual self) n \<noteq> None \<Longrightarrow>
     snd (compare_table_columns self n) = None"
  by (auto simp: compare_table_columns_def column_names_def compare_column_ok
      intro!: for_each_snd_None)

lemma compare_index_ok: "snd (compare_index n es as i) = None"
  by (simp add: compare_index_def)

lemma compare_constraint_ok: "snd (compare_constraint n es as k) = None"
  by (simp add: compare_constraint_def split: option.splits)

lemma normalize_index_Inr_iff:
  "(\<exists>v. normalize_index_definition d = Inr v) \<longleftrightarrow> index_recognized d"
  by (auto simp: normalize_index_definition_def index_recognized_def split: option.splits)

lemma normalize_index_Inl_iff:
  "normalize_index_definition d = Inl e \<longleftrightarrow>
     \<not> index_recognized d \<and> e = NotImplementedError (''Cannot parse index definition: '' @ d)"
  by (auto simp: normalize_index_definition_def index_recognized_def split: option.splits)

lemma normalize_constraint_Inr_iff:
  "(\<exists>v. normalize_constraint_definition d = Inr v) \<longleftrightarrow> constraint_recognized d"
  by (auto simp: normalize_constraint_definition_def constraint_recognized_def split: option.splits)

lemma normalize_constraint_Inl_iff:
  "normalize_constraint_definition d = Inl e \<longleftrightarrow>
     \<not> constraint_recognized d \<and> e = NotImplementedError (''Cannot parse constraint definition: '' @ d)"
  by (auto simp: normalize_constraint_definition_def constraint_recognized_def split: option.splits)

lemma indexes_comprehension_cases:
  "(\<exists>ds. comprehension (\<lambda>i. normalize_index_definition (idx_def i)) (tbl_indexes t) = Inr ds
       \<and> list_all (\<lambda>i. index_recognized (idx_def i)) (tbl_indexes t)) \<or>
   (\<exists>e. comprehension (\<lambda>i. normalize_index_definition (idx_def i)) (tbl_indexes t) = Inl e
       \<and> index_error t e)"
proof (cases "comprehension (\<lambda>i. normalize_index_definition (idx_def i)) (tbl_indexes t)")
  case (Inl e)
  from comprehension_Inl[OF Inl] show ?thesis
    using Inl by (auto simp: normalize_index_Inl_iff index_error_def)
next
  case (Inr ds)
  then have "\<forall>x\<in>set (tbl_indexes t). \<exists>y. normalize_index_definition (idx_def x) = Inr y"
    using comprehension_Inr_iff[of "\<lambda>i. normalize_index_definition (idx_def i)" "tbl_indexes t"] by blast
  then have "\<forall>x\<in>set (tbl_indexes t). index_recognized (idx_def x)"
    using normalize_index_Inr_iff by blast
  then show ?thesis using Inr by (simp add: list_all_iff)
qed

lemma constraints_comprehension_cases:
  "(\<exists>ds. comprehension (\<lambda>c. normalize_constraint_definition (con_def c)) (tbl_constraints t) = Inr ds
       \<and> list_all (\<lambda>c. constraint_recognized (con_def c)) (tbl_constraints t)) \<or>
   (\<exists>e. comprehension (\<lambda>c. normalize_constraint_definition (con_def c)) (tbl_constraints t) = Inl e
       \<and> constraint_error t e)"
proof (cases "comprehension (\<lambda>c. normalize_constraint_definition (con_def c)) (tbl_constraints t)")
  case (Inl e)
  from comprehension_Inl[OF Inl] show ?thesis
    using Inl by (auto simp: normalize_constraint_Inl_iff constraint_error_def)
next
  case (Inr ds)
  then have "\<forall>x\<in>set (tbl_constraints t). \<exists>y. normalize_constraint_definition (con_def x) = Inr y"
    using comprehension_Inr_iff[of "\<lambda>c. normalize_constraint_definition (con_def c)" "tbl_constraints t"] by blast
  then have "\<forall>x\<in>set (tbl_constraints t). constraint_recognized (con_def x)"
    using normalize_constraint_Inr_iff by blast
  then show ?thesis using Inr by (simp add: list_all_iff)
qed

lemma index_error_unrecognized: "index_error t e \<Longrightarrow> \<not> list_all (\<lambda>i. index_recognized (idx_def i)) (tbl_indexes t)"
  by (auto simp: index_error_def list_all_iff)

lemma constraint_error_unrecognized: "constraint_error t e \<Longrightarrow> \<not> list_all (\<lambda>c. constraint_recognized (con_def c)) (tbl_constraints t)"
  by (auto simp: constraint_error_def list_all_iff)

lemma compare_table_indexes_snd:
  assumes "get_table (expected self) n = Some te" "get_table (actual self) n = Some ta"
  shows "(snd (compare_table_indexes self n) = None
            \<and> list_all (\<lambda>i. index_recognized (idx_def i)) (tbl_indexes te)
            \<and> list_all (\<lambda>i. index_recognized (idx_def i)) (tbl_indexes ta)) \<or>
         (\<exists>e. snd (compare_table_indexes self n) = Some e \<and> (index_error te e \<or> index_error ta e))"
  using indexes_comprehension_cases[of te] indexes_comprehension_cases[of ta] assms
  by (auto simp: compare_table_indexes_def compare_index_ok intro!: for_each_snd_None)

lemma compare_table_constraints_snd:
  assumes "get_table (expected self) n = Some te" "get_table (actual self) n = Some ta"
  shows "(snd (compare_table_constraints self n) = None
            \<and> list_all (\<lambda>c. constraint_recognized (con_def c)) (tbl_constraints te)
            \<and> list_all (\<lambda>c. constraint_recognized (con_def c)) (tbl_constraints ta)) \<or>
         (\<exists>e. snd (compare_table_constraints self n) = Some e \<and> (constraint_error te e \<or> constraint_error ta e))"
  using constraints_comprehension_cases[of te] constraints_comprehension_cases[of ta] assms
  by (auto simp: compare_table_constraints_def compare_constraint_ok intro!: for_each_snd_None)

lemma compare_table_snd:
  "(snd (compare_table self n) = None \<and> \<not> offending self n) \<or>
   (\<exists>e. snd (compare_table self n) = Some e \<and> offending self n \<and> table_error self n e)"
proof (cases "get_table (expected self) n")
  case None
  then show ?thesis by (simp add: compare_table_def has_table_get_table offending_def)
next
  case (Some te)
  note te = this
  show ?thesis
  proof (cases "get_table (actual self) n")
    case None
    then show ?thesis using te by (simp add: compare_table_def has_table_get_table offending_def)
  next
    case (Some ta)
    have ty: "snd (compare_table_type self n) = None" using te Some by (simp add: compare_table_type_ok)
    have co: "snd (compare_table_comment self n) = None" using te Some by (simp add: compare_table_comment_ok)
    have cl: "snd (compare_table_columns self n) = None" using te Some by (simp add: compare_table_columns_ok)
    have s: "snd (compare_table self n) =
        (case snd (compare_table_indexes self n) of Some e \<Rightarrow> Some e
          | None \<Rightarrow> snd (compare_table_constraints self n))"
      using te Some by (simp add: compare_table_def has_table_get_table snd_and_then ty co cl)
    from compare_table_indexes_snd[OF te Some] compare_table_constraints_snd[OF te Some]
    show ?thesis
      using te Some
      by (auto simp: s offending_def table_recognized_def table_error_def
          dest: index_error_unrecognized constraint_error_unrecognized)
  qed
qed

lemma compare_table_snd_None_iff: "snd (compare_table self n) = None \<longleftrightarrow> \<not> offending self n"
  using compare_table_snd[of self n] by auto

section \<open>The run of a comparison\<close>

lemma filter_concat_by_key:
  assumes "distinct ms" "\<And>m f. f \<in> set (F m) \<Longrightarrow> key f = m"
  shows "filter (\<lambda>f. key f = n) (concat (map F ms)) = (if n \<in> set ms then F n else [])"
  using assms(1)
proof (induction ms)
  case Nil
  then show ?case by simp
next
  case (Cons a ms)
  have a: "filter (\<lambda>f. key f = n) (F a) = (if a = n then F a else [])"
    using assms(2)[of _ a] by (auto simp: filter_empty_conv filter_id_conv)
  from Cons show ?case by (auto simp: a)
qed

lemma compare_unfold: "compare self = for_each (compare_table self) (all_table_names self)"
  by (simp add: compare_def all_table_names_def)

lemma all_table_names_sorted:
  "sorted (all_table_names self)" "distinct (all_table_names self)"
  by (simp_all add: all_table_names_def sorted_sorted_set)

lemma set_all_table_names:
  "set (all_table_names self) = set (table_names (expected self)) \<union> set (table_names (actual self))"
  by (simp add: all_table_names_def)

lemma offending_in_names:
  assumes "self = Comparator (InspectedSchema tables_e) (InspectedSchema tables_a) eqs"
    "offending self m"
  shows "m \<in> set (all_table_names self)"
proof -
  have "get_table (InspectedSchema tables_e) m \<noteq> None"
    using assms by (auto simp: offending_def Comparator_def split: option.splits)
  then show ?thesis
    using assms(1) by (simp add: get_table_None_iff set_all_table_names Comparator_def)
qed

text \<open>The two ways a run ends.\<close>

lemma compare_cases:
  "(compare self = (concat (map (\<lambda>m. fst (compare_table self m)) (all_table_names self)), None)
      \<and> (\<forall>m\<in>set (all_table_names self). \<not> offending self m)) \<or>
   (\<exists>pre n post e. all_table_names self = pre @ n # post \<and> (\<forall>m\<in>set pre. \<not> offending self m)
      \<and> offending self n \<and> table_error self n e
      \<and> compare self = (concat (map (\<lambda>m. fst (compare_table self m)) (pre @ [n])), Some e))"
proof -
  from for_each_cases[of "compare_table self" "all_table_names self"]
  show ?thesis
  proof
    assume a: "snd (for_each (compare_table self) (all_table_names self)) = None \<and>
      (\<forall>x\<in>set (all_table_names self). snd (compare_table self x) = None)"
    then have "compare self = (concat (map (\<lambda>m. fst (compare_table self m)) (all_table_names self)), None)"
      by (simp add: compare_unfold for_each_ok)
    then show ?thesis using a by (simp add: compare_table_snd_None_iff)
  next
    assume "\<exists>pre x post e. all_table_names self = pre @ x # post \<and>
       (\<forall>y\<in>set pre. snd (compare_table self y) = None) \<and> snd (compare_table self x) = Some e \<and>
       snd (for_each (compare_table self) (all_table_names self)) = Some e"
    then obtain pre x post e where h: "all_table_names self = pre @ x # post"
      "\<forall>y\<in>set pre. snd (compare_table self y) = None" "snd (compare_table self x) = Some e"
      by blast
    have c: "compare self = (concat (map (\<lambda>m. fst (compare_table self m)) (pre @ [x])), Some e)"
      using for_each_raise[of pre "compare_table self" x e post] h by (simp add: compare_unfold)
    have o: "offending self x \<and> table_error self x e"
      using compare_table_snd[of self x] h(3) by auto
    show ?thesis using h(1,2) c o by (auto simp: compare_table_snd_None_iff)
  qed
qed

lemma sorted_split_less:
  assumes "sorted (pre @ n # post)" "distinct (pre @ n # post)"
  shows "(\<forall>m\<in>set pre. m < n) \<and> (\<forall>m\<in>set post. n < m)"
  using assms by (auto simp: sorted_append less_le)

lemma compare_findings_for_table:
  assumes self: "self = Comparator (InspectedSchema tables_e) (InspectedSchema tables_a) eqs"
  shows "filter (\<lambda>f. finding_table f = n) (fst (compare self)) =
     (if n \<in> set (all_table_names self) \<and> \<not> (\<exists>m. m < n \<and> offending self m)
      then fst (compare_table self n) else [])"
proof -
  from compare_cases[of self] show ?thesis
  proof
    assume a: "compare self = (concat (map (\<lambda>m. fst (compare_table self m)) (all_table_names self)), None)
      \<and> (\<forall>m\<in>set (all_table_names self). \<not> offending self m)"
    have no: "\<not> (\<exists>m. m < n \<and> offending self m)"
      using a offending_in_names[OF self] by blast
    show ?thesis
      using a no filter_concat_by_key[OF all_table_names_sorted(2), of "\<lambda>m. fst (compare_table self m)" finding_table n]
      by (simp add: compare_table_table)
  next
    assume "\<exists>pre n post e. all_table_names self = pre @ n # post \<and> (\<forall>m\<in>set pre. \<not> offending self m)
      \<and> offending self n \<and> table_error self n e
      \<and> compare self = (concat (map (\<lambda>m. fst (compare_table self m)) (pre @ [n])), Some e)"
    then obtain pre n0 post e where h: "all_table_names self = pre @ n0 # post"
      "\<forall>m\<in>set pre. \<not> offending self m" "offending self n0"
      "compare self = (concat (map (\<lambda>m. fst (compare_table self m)) (pre @ [n0])), Some e)"
      by blast
    have sd: "sorted (pre @ n0 # post)" "distinct (pre @ n0 # post)"
      using all_table_names_sorted[of self] h(1) by simp_all
    note lt = sorted_split_less[OF sd]
    have d: "distinct (pre @ [n0])" using sd(2) by simp
    have iff: "n \<in> set (pre @ [n0]) \<longleftrightarrow>
        n \<in> set (all_table_names self) \<and> \<not> (\<exists>m. m < n \<and> offending self m)"
    proof
      assume n: "n \<in> set (pre @ [n0])"
      then have le: "n \<le> n0" using lt by auto
      have "\<not> (\<exists>m. m < n \<and> offending self m)"
      proof
        assume "\<exists>m. m < n \<and> offending self m"
        then obtain m where m: "m < n" "offending self m" by blast
        then have "m \<in> set (pre @ n0 # post)" using offending_in_names[OF self] h(1) by metis
        moreover have "m < n0" using m le by simp
        ultimately have "m \<in> set pre" using lt by (auto simp: less_le not_le)
        then show False using h(2) m(2) by blast
      qed
      then show "n \<in> set (all_table_names self) \<and> \<not> (\<exists>m. m < n \<and> offending self m)"
        using n h(1) by auto
    next
      assume a: "n \<in> set (all_table_names self) \<and> \<not> (\<exists>m. m < n \<and> offending self m)"
      then have "\<not> n0 < n" using h(3) by blast
      then have "n \<notin> set post" using lt by blast
      then show "n \<in> set (pre @ [n0])" using a h(1) by auto
    qed
    show ?thesis
      using h(4) iff filter_concat_by_key[OF d, of "\<lambda>m. fst (compare_table self m)" finding_table n]
      by (simp add: compare_table_table)
  qed
qed

lemma compare_table_one_sided:
  "\<not> has_table (expected self) n \<Longrightarrow> compare_table self n = print (TableNotExpected n)"
  "has_table (expected self) n \<Longrightarrow> \<not> has_table (actual self) n \<Longrightarrow>
     compare_table self n = print (TableNotFound n)"
  by (simp_all add: compare_table_def)

lemma for_each_no_presence:
  assumes "\<And>x f. f \<in> set (fst (body x)) \<Longrightarrow> P f"
  shows "f \<in> set (fst (for_each body xs)) \<Longrightarrow> P f"
  using fst_for_each_subset[of f body xs] assms by blast

lemma compare_table_both_no_presence:
  assumes "has_table (expected self) n" "has_table (actual self) n"
    "f \<in> set (fst (compare_table self n))"
  shows "f \<noteq> TableNotFound m \<and> f \<noteq> TableNotExpected m"
proof -
  let ?P = "\<lambda>f. f \<noteq> TableNotFound m \<and> f \<noteq> TableNotExpected m"
  have p1: "\<And>f. f \<in> set (fst (compare_table_type self n)) \<Longrightarrow> ?P f"
    by (auto simp: compare_table_type_def split: option.splits if_splits)
  have p2: "\<And>f. f \<in> set (fst (compare_table_comment self n)) \<Longrightarrow> ?P f"
    by (auto simp: compare_table_comment_def split: option.splits if_splits)
  have p3a: "\<And>f c. f \<in> set (fst (compare_column self n c)) \<Longrightarrow> ?P f"
    by (auto simp: compare_column_def compare_column_type_def compare_column_comment_def
        fst_and_then Let_def split: option.splits if_splits prod.splits)
  have p3: "\<And>f. f \<in> set (fst (compare_table_columns self n)) \<Longrightarrow> ?P f"
    unfolding compare_table_columns_def
    by (auto split: sum.splits dest!: fst_for_each_subset dest: p3a)
  have p4: "\<And>f. f \<in> set (fst (compare_table_indexes self n)) \<Longrightarrow> ?P f"
    by (auto simp: compare_table_indexes_def compare_index_def
      dest!: fst_for_each_subset split: sum.splits option.splits if_splits)
  have p5: "\<And>f. f \<in> set (fst (compare_table_constraints self n)) \<Longrightarrow> ?P f"
    by (auto simp: compare_table_constraints_def compare_constraint_def
      dest!: fst_for_each_subset split: sum.splits option.splits if_splits)
  from assms show ?thesis
    by (auto simp: compare_table_def fst_and_then dest: p1 p2 p3 p4 p5 split: option.splits)
qed

lemma has_table_in_names:
  assumes "self = Comparator (InspectedSchema tables_e) (InspectedSchema tables_a) eqs"
  shows "n \<in> set (all_table_names self) \<longleftrightarrow> has_table (expected self) n \<or> has_table (actual self) n"
  using assms by (simp add: set_all_table_names has_table_iff Comparator_def)

text \<open>
  Claim C1, as amended. The labels are the other way round than the claim has them:
  the comparison of a table that only the expected schema has prints
  \<open>table not found\<close>, and that of a table that only the actual schema has prints
  \<open>table not expected\<close>. A run prints nothing for the tables it has not reached when
  an unsupported definition aborts it: in a whole run \<open>table not found\<close> is printed
  for a table name exactly when the table is in the expected schema only, and
  \<open>table not expected\<close> exactly when it is in the actual schema only, in both cases
  provided no table with a smaller name offends.
\<close>

theorem one_sided_table_label:
  assumes self: "self = Comparator (InspectedSchema tables_e) (InspectedSchema tables_a) eqs"
  shows "(has_table (expected self) n \<and> \<not> has_table (actual self) n \<longrightarrow>
            compare_table self n = ([TableNotFound n], None))
       \<and> (\<not> has_table (expected self) n \<longrightarrow>
            compare_table self n = ([TableNotExpected n], None))
       \<and> (TableNotFound n \<in> set (fst (compare self)) \<longleftrightarrow>
            has_table (expected self) n \<and> \<not> has_table (actual self) n
            \<and> \<not> (\<exists>m. m < n \<and> offending self m))
       \<and> (TableNotExpected n \<in> set (fst (compare self)) \<longleftrightarrow>
            \<not> has_table (expected self) n \<and> has_table (actual self) n
            \<and> \<not> (\<exists>m. m < n \<and> offending self m))"
proof -
  have per_table: "(has_table (expected self) n \<and> \<not> has_table (actual self) n \<longrightarrow>
            compare_table self n = ([TableNotFound n], None))
       \<and> (\<not> has_table (expected self) n \<longrightarrow>
            compare_table self n = ([TableNotExpected n], None))"
    using compare_table_one_sided[of self n] by (simp add: print_def)
  have mem: "\<And>f. finding_table f = n \<Longrightarrow> f \<in> set (fst (compare self)) \<longleftrightarrow>
      n \<in> set (all_table_names self) \<and> \<not> (\<exists>m. m < n \<and> offending self m)
      \<and> f \<in> set (fst (compare_table self n))"
  proof -
    fix f assume t: "finding_table f = n"
    have "f \<in> set (fst (compare self)) \<longleftrightarrow>
        f \<in> set (filter (\<lambda>f. finding_table f = n) (fst (compare self)))"
      using t by simp
    then show "f \<in> set (fst (compare self)) \<longleftrightarrow>
      n \<in> set (all_table_names self) \<and> \<not> (\<exists>m. m < n \<and> offending self m)
      \<and> f \<in> set (fst (compare_table self n))"
      unfolding compare_findings_for_table[OF self] by (simp split: if_splits)
  qed
  have nf: "TableNotFound n \<in> set (fst (compare_table self n)) \<longleftrightarrow>
      has_table (expected self) n \<and> \<not> has_table (actual self) n"
    using compare_table_one_sided[of self n] compare_table_both_no_presence[of self n "TableNotFound n" n]
    by (cases "has_table (expected self) n"; cases "has_table (actual self) n") auto
  have ne: "TableNotExpected n \<in> set (fst (compare_table self n)) \<longleftrightarrow> \<not> has_table (expected self) n"
    using compare_table_one_sided[of self n] compare_table_both_no_presence[of self n "TableNotExpected n" n]
    by (cases "has_table (expected self) n"; cases "has_table (actual self) n") auto
  have whole_run: "(TableNotFound n \<in> set (fst (compare self)) \<longleftrightarrow>
            has_table (expected self) n \<and> \<not> has_table (actual self) n
            \<and> \<not> (\<exists>m. m < n \<and> offending self m))
       \<and> (TableNotExpected n \<in> set (fst (compare self)) \<longleftrightarrow>
            \<not> has_table (expected self) n \<and> has_table (actual self) n
            \<and> \<not> (\<exists>m. m < n \<and> offending self m))"
    using mem[of "TableNotFound n"] mem[of "TableNotExpected n"] nf ne has_table_in_names[OF self, of n]
    by auto
  show ?thesis
    using per_table whole_run by (simp only: simp_thms)
qed

text \<open>
  The labels on a table of the expected schema only: the claim's \<open>table not expected\<close>
  is not printed, \<open>table not found\<close> is.
\<close>

theorem one_sided_table_label_witness:
  "TableNotFound ''orders'' \<in> set (fst (compare only_expected_example))
   \<and> has_table (expected only_expected_example) ''orders''
   \<and> \<not> has_table (actual only_expected_example) ''orders''
   \<and> \<not> (\<exists>m. m < ''orders'' \<and> offending only_expected_example m)"
proof -
  have f: "TableNotFound ''orders'' \<in> set (fst (compare only_expected_example))"
    by code_simp
  show ?thesis
    using one_sided_table_label [OF only_expected_example_def, of "''orders''"] f by blast
qed

theorem one_sided_table_label_counterexample:
  "has_table (expected only_expected_example) ''orders''
   \<and> \<not> has_table (actual only_expected_example) ''orders''
   \<and> TableNotExpected ''orders'' \<notin> set (fst (compare only_expected_example))
   \<and> printed (compare only_expected_example) = [''orders: table not found'']
   \<and> \<not> has_table (expected only_actual_example) ''orders''
   \<and> has_table (actual only_actual_example) ''orders''
   \<and> TableNotFound ''orders'' \<notin> set (fst (compare only_actual_example))
   \<and> printed (compare only_actual_example) = [''orders: table not expected'']
   \<and> has_table (expected aborting_example) ''orders''
   \<and> \<not> has_table (actual aborting_example) ''orders''
   \<and> fst (compare aborting_example) = []"
  by code_simp

text \<open>
  Claim C7, as amended. For a table name in exactly one of the two schemas the
  comparison of that table prints exactly one finding, the presence finding, and
  nothing else. A whole run prints that one finding for it, except that it prints no
  finding for it when a table with a smaller name offends (the run is aborted before);
  it never prints a type, comment, column, index or constraint finding for it.
\<close>

theorem one_sided_table_findings:
  assumes self: "self = Comparator (InspectedSchema tables_e) (InspectedSchema tables_a) eqs"
    and one: "has_table (expected self) n \<noteq> has_table (actual self) n"
  shows "compare_table self n =
           ([if has_table (expected self) n then TableNotFound n else TableNotExpected n], None)
       \<and> filter (\<lambda>f. finding_table f = n) (fst (compare self)) =
           (if \<exists>m. m < n \<and> offending self m then []
            else [if has_table (expected self) n then TableNotFound n else TableNotExpected n])"
proof -
  have n: "n \<in> set (all_table_names self)"
    using one has_table_in_names[OF self, of n] by auto
  have t: "compare_table self n =
      ([if has_table (expected self) n then TableNotFound n else TableNotExpected n], None)"
    using one compare_table_one_sided[of self n] by (auto simp: print_def)
  have "filter (\<lambda>f. finding_table f = n) (fst (compare self)) =
           (if \<exists>m. m < n \<and> offending self m then []
            else [if has_table (expected self) n then TableNotFound n else TableNotExpected n])"
    unfolding compare_findings_for_table[OF self] using n t by simp
  then show ?thesis using t by (simp only: simp_thms)
qed

theorem one_sided_table_findings_witness:
  "has_table (expected only_actual_example) ''orders'' \<noteq> has_table (actual only_actual_example) ''orders''
   \<and> compare_table only_actual_example ''orders'' =
       ([if has_table (expected only_actual_example) ''orders''
         then TableNotFound ''orders'' else TableNotExpected ''orders''], None)
   \<and> filter (\<lambda>f. finding_table f = ''orders'') (fst (compare only_actual_example)) =
       (if \<exists>m. m < ''orders'' \<and> offending only_actual_example m then []
        else [if has_table (expected only_actual_example) ''orders''
              then TableNotFound ''orders'' else TableNotExpected ''orders''])
   \<and> fst (compare only_actual_example) = [TableNotExpected ''orders'']"
proof -
  have h: "has_table (expected only_actual_example) ''orders'' \<noteq> has_table (actual only_actual_example) ''orders''"
    by code_simp
  have v: "fst (compare only_actual_example) = [TableNotExpected ''orders'']"
    by code_simp
  show ?thesis
    using one_sided_table_findings [OF only_actual_example_def h] h v by blast
qed

text \<open>
  A table of the actual schema only, behind a table with an unsupported index
  definition: the run prints no finding for it.
\<close>

theorem one_sided_table_findings_counterexample:
  "\<not> has_table (expected aborting_example2) ''orders''
   \<and> has_table (actual aborting_example2) ''orders''
   \<and> filter (\<lambda>f. finding_table f = ''orders'') (fst (compare aborting_example2)) = []
   \<and> compare aborting_example2 =
       ([], Some (NotImplementedError ''Cannot parse index definition: CREATE INDEX x ON t USING hash (a)''))"
  by code_simp

lemma compare_snd_None_iff:
  assumes self: "self = Comparator (InspectedSchema tables_e) (InspectedSchema tables_a) eqs"
  shows "snd (compare self) = None \<longleftrightarrow> \<not> (\<exists>n. offending self n)"
  using compare_cases[of self] offending_in_names[OF self] by auto

lemma compare_abort:
  assumes self: "self = Comparator (InspectedSchema tables_e) (InspectedSchema tables_a) eqs"
    and e: "snd (compare self) = Some e"
  shows "\<exists>n. offending self n \<and> (\<forall>m. m < n \<longrightarrow> \<not> offending self m) \<and> table_error self n e
      \<and> (\<forall>f\<in>set (fst (compare self)). finding_table f \<le> n)"
proof -
  from compare_cases[of self] e obtain pre n post where h:
    "all_table_names self = pre @ n # post" "\<forall>m\<in>set pre. \<not> offending self m"
    "offending self n" "table_error self n e"
    "compare self = (concat (map (\<lambda>m. fst (compare_table self m)) (pre @ [n])), Some e)"
    by auto
  have sd: "sorted (pre @ n # post)" "distinct (pre @ n # post)"
    using all_table_names_sorted[of self] h(1) by simp_all
  note lt = sorted_split_less[OF sd]
  have least: "\<forall>m. m < n \<longrightarrow> \<not> offending self m"
  proof (intro allI impI notI)
    fix m assume m: "m < n" "offending self m"
    then have "m \<in> set (pre @ n # post)" using offending_in_names[OF self] h(1) by metis
    then have "m \<in> set pre" using lt m(1) by (auto simp: less_le not_le)
    then show False using h(2) m(2) by blast
  qed
  have upto: "\<forall>f\<in>set (fst (compare self)). finding_table f \<le> n"
  proof
    fix f assume "f \<in> set (fst (compare self))"
    then obtain m where m: "m \<in> set (pre @ [n])" "f \<in> set (fst (compare_table self m))"
      using h(5) by auto
    then have "finding_table f = m" by (simp add: compare_table_table)
    then show "finding_table f \<le> n" using m(1) lt by auto
  qed
  show ?thesis using h(3,4) least upto by blast
qed

lemma hash_index_not_recognized:
  "normalize_index_definition ''CREATE INDEX x ON t USING hash (a)'' =
     Inl (NotImplementedError ''Cannot parse index definition: CREATE INDEX x ON t USING hash (a)'')"
  by code_simp

text \<open>
  Claim C2. A run raises if and only if some table name offends: both schemas have the
  table and an index definition of one of the two tables does not match the index
  pattern, or a constraint definition of theirs matches none of the three constraint
  patterns. The exception is the NotImplementedError of a definition of the first
  offending table in the order of the names, and every finding printed before it is for
  that table or an earlier one. The definition
  \<^verbatim>\<open>CREATE INDEX x ON t USING hash (a)\<close> is not recognized.
\<close>

theorem unsupported_definition_aborts:
  assumes self: "self = Comparator (InspectedSchema tables_e) (InspectedSchema tables_a) eqs"
  shows "(snd (compare self) \<noteq> None \<longleftrightarrow> (\<exists>n. offending self n))
       \<and> (\<forall>e. snd (compare self) = Some e \<longrightarrow>
            (\<exists>n. offending self n \<and> (\<forall>m. m < n \<longrightarrow> \<not> offending self m) \<and> table_error self n e
               \<and> (\<forall>f\<in>set (fst (compare self)). finding_table f \<le> n)))
       \<and> \<not> index_recognized ''CREATE INDEX x ON t USING hash (a)''
       \<and> normalize_index_definition ''CREATE INDEX x ON t USING hash (a)'' =
           Inl (NotImplementedError ''Cannot parse index definition: CREATE INDEX x ON t USING hash (a)'')"
proof -
  have a: "snd (compare self) \<noteq> None \<longleftrightarrow> (\<exists>n. offending self n)"
    using compare_snd_None_iff[OF self] by simp
  have b: "\<forall>e. snd (compare self) = Some e \<longrightarrow>
            (\<exists>n. offending self n \<and> (\<forall>m. m < n \<longrightarrow> \<not> offending self m) \<and> table_error self n e
               \<and> (\<forall>f\<in>set (fst (compare self)). finding_table f \<le> n))"
    using compare_abort[OF self] by blast
  have c: "\<not> index_recognized ''CREATE INDEX x ON t USING hash (a)''"
    using hash_index_not_recognized normalize_index_Inl_iff by blast
  show ?thesis using a b c hash_index_not_recognized by blast
qed

theorem unsupported_definition_aborts_witness:
  "(snd (compare aborting_example) \<noteq> None \<longleftrightarrow> (\<exists>n. offending aborting_example n))
   \<and> offending aborting_example ''accounts''
   \<and> compare aborting_example =
       ([], Some (NotImplementedError ''Cannot parse index definition: CREATE INDEX x ON t USING hash (a)''))"
proof -
  have o: "offending aborting_example ''accounts''"
    by code_simp
  have c: "compare aborting_example =
       ([], Some (NotImplementedError ''Cannot parse index definition: CREATE INDEX x ON t USING hash (a)''))"
    by code_simp
  show ?thesis
    using unsupported_definition_aborts [OF aborting_example_def] o c by blast
qed

section \<open>A schema compared with itself\<close>

lemma map_of_map_pair:
  "map_of (map (\<lambda>t. (k t, f t)) xs) n = map_option f (map_of (map (\<lambda>t. (k t, t)) xs) n)"
  by (induction xs) auto

lemma dict_map_pair:
  "dict (map (\<lambda>t. (k t, f t)) xs) n = map_option f (dict (map (\<lambda>t. (k t, t)) xs) n)"
  using map_of_map_pair[of k f "rev xs" n] by (simp add: dict_map_of rev_map)

lemma dict_in_keys: "(k, v) \<in> set kvs \<Longrightarrow> \<exists>v'. dict kvs k = Some v'"
  using dict_None_iff[of kvs k] by (cases "dict kvs k") force+

lemma get_column_of_table:
  assumes "get_table (InspectedSchema tables) n = Some t" "c \<in> set (tbl_columns t)"
  shows "\<exists>c'. get_column (InspectedSchema tables) n (col_name c) = Some c'"
proof -
  have "table_name_to_column_name_to_column (InspectedSchema tables) n =
      Some (dict (map (\<lambda>c. (col_name c, c)) (tbl_columns t)))"
    using assms(1)
    by (simp add: InspectedSchema_def get_table_def
        dict_map_pair[of tbl_name "\<lambda>t. dict (map (\<lambda>c. (col_name c, c)) (tbl_columns t))"])
  moreover have "\<exists>c'. dict (map (\<lambda>c. (col_name c, c)) (tbl_columns t)) (col_name c) = Some c'"
    using assms(2) by (intro dict_in_keys[of _ c]) auto
  ultimately show ?thesis by (auto simp: get_column_def)
qed

lemma compare_column_same:
  assumes "self = Comparator s s eqs" "get_column s n c \<noteq> None"
  shows "compare_column self n c = skip"
  using assms
  by (auto simp: compare_column_def compare_column_type_def compare_column_comment_def
      Comparator_def Let_def split: prod.splits)

lemma compare_index_same: "i \<in> set ds \<Longrightarrow> compare_index n ds ds i = skip"
  by (simp add: compare_index_def)

lemma compare_constraint_same: "k \<in> fst ` set ps \<Longrightarrow> compare_constraint n (dict ps) (dict ps) k = skip"
  using dict_None_iff[of ps k] by (auto simp: compare_constraint_def split: option.splits)

lemma compare_table_same:
  assumes self: "self = Comparator (InspectedSchema tables) (InspectedSchema tables) eqs"
    and t: "get_table (InspectedSchema tables) n = Some t" and rec: "table_recognized t"
  shows "compare_table self n = skip"
proof -
  let ?s = "InspectedSchema tables"
  have ex: "expected self = ?s" "actual self = ?s" using self by (simp_all add: Comparator_def)
  have ty: "compare_table_type self n = skip"
    by (simp add: compare_table_type_def ex t)
  have co: "compare_table_comment self n = skip"
    by (simp add: compare_table_comment_def ex t)
  have cols: "compare_table_columns self n = skip"
  proof -
    have "for_each (compare_column self n) (sorted_set (map col_name (tbl_columns t) @ map col_name (tbl_columns t))) = skip"
    proof (rule for_each_all_skip)
      fix x assume "x \<in> set (sorted_set (map col_name (tbl_columns t) @ map col_name (tbl_columns t)))"
      then obtain c where c: "c \<in> set (tbl_columns t)" "x = col_name c" by auto
      from get_column_of_table[OF t c(1)] have "get_column ?s n x \<noteq> None" using c(2) by auto
      then show "compare_column self n x = skip"
        using compare_column_same[of self ?s eqs n x] self by simp
    qed
    then show ?thesis by (simp add: compare_table_columns_def column_names_def ex t)
  qed
  have idx: "compare_table_indexes self n = skip"
  proof -
    from indexes_comprehension_cases[of t] rec obtain ds where
      ds: "comprehension (\<lambda>i. normalize_index_definition (idx_def i)) (tbl_indexes t) = Inr ds"
      by (auto simp: table_recognized_def dest: index_error_unrecognized)
    have "for_each (compare_index n ds ds) (sorted_set (ds @ ds)) = skip"
      by (rule for_each_all_skip) (simp add: compare_index_same)
    then show ?thesis by (simp add: compare_table_indexes_def ex t ds)
  qed
  have con: "compare_table_constraints self n = skip"
  proof -
    from constraints_comprehension_cases[of t] rec obtain ps where
      ps: "comprehension (\<lambda>c. normalize_constraint_definition (con_def c)) (tbl_constraints t) = Inr ps"
      by (auto simp: table_recognized_def dest: constraint_error_unrecognized)
    have "for_each (compare_constraint n (dict ps) (dict ps)) (sorted_set (map fst ps @ map fst ps)) = skip"
      by (rule for_each_all_skip) (simp add: compare_constraint_same)
    then show ?thesis by (simp add: compare_table_constraints_def ex t ps)
  qed
  show ?thesis
    by (simp add: compare_table_def ex has_table_get_table t ty co cols idx con)
qed

lemma get_table_in_tables:
  "get_table (InspectedSchema tables) n = Some t \<Longrightarrow> t \<in> set tables"
  by (auto simp: get_table_def InspectedSchema_def dict_map_of dest!: map_of_SomeD)

text \<open>
  Claim C4. When every index and constraint definition of a schema is recognized,
  comparing the schema with itself prints nothing and raises nothing, whatever the
  configured equivalence sets.
\<close>

theorem identical_schemas_no_findings:
  assumes "\<forall>t\<in>set tables. table_recognized t"
  shows "compare (Comparator (InspectedSchema tables) (InspectedSchema tables) eqs) = ([], None)"
proof -
  let ?self = "Comparator (InspectedSchema tables) (InspectedSchema tables) eqs"
  have "for_each (compare_table ?self) (all_table_names ?self) = skip"
  proof (rule for_each_all_skip)
    fix n assume "n \<in> set (all_table_names ?self)"
    then have "get_table (InspectedSchema tables) n \<noteq> None"
      by (simp add: set_all_table_names Comparator_def get_table_None_iff)
    then obtain t where t: "get_table (InspectedSchema tables) n = Some t" by blast
    then have "table_recognized t" using assms get_table_in_tables by blast
    then show "compare_table ?self n = skip" using compare_table_same[OF refl t] by simp
  qed
  then show ?thesis by (simp add: compare_unfold skip_def)
qed

theorem identical_schemas_no_findings_witness:
  "(\<forall>t\<in>set [users_table ''CREATE INDEX idx_1 ON users USING btree (id)'', orders_table].
       table_recognized t) = True
   \<and> compare (Comparator
        (InspectedSchema [users_table ''CREATE INDEX idx_1 ON users USING btree (id)'', orders_table])
        (InspectedSchema [users_table ''CREATE INDEX idx_1 ON users USING btree (id)'', orders_table])
        [[''timestamp'', ''timestamptz'']]) = ([], None)"
proof -
  have h: "\<forall>t\<in>set [users_table ''CREATE INDEX idx_1 ON users USING btree (id)'', orders_table].
       table_recognized t"
    by code_simp
  show ?thesis
    using identical_schemas_no_findings [OF h] h by simp
qed

section \<open>What the matcher returns\<close>

lemma take_le_takeWhile:
  assumes "i \<le> length (takeWhile P s)"
  shows "\<forall>c\<in>set (take i s). P c"
proof -
  have "take i s = take i (takeWhile P s)"
    using assms by (metis takeWhile_dropWhile_id take_append diff_is_0_eq take_0 append_Nil2)
  then show ?thesis by (metis in_set_takeD set_takeWhileD)
qed

lemma length_le_takeWhile:
  assumes "\<forall>c\<in>set p. P c"
  shows "length p \<le> length (takeWhile P (p @ t))"
  using assms by (simp add: takeWhile_append2)

lemma mem_repeat:
  "(s', g') \<in> set (map (\<lambda>i. (drop i s, g)) (rev [a ..< Suc (length (takeWhile P s))])) \<longleftrightarrow>
     g' = g \<and> (\<exists>p. a \<le> length p \<and> s = p @ s' \<and> (\<forall>c\<in>set p. P c))"
proof
  assume "(s', g') \<in> set (map (\<lambda>i. (drop i s, g)) (rev [a ..< Suc (length (takeWhile P s))]))"
  then obtain i where i: "a \<le> i" "i \<le> length (takeWhile P s)" "s' = drop i s" "g' = g"
    by auto
  have "i \<le> length s" using i(2) length_takeWhile_le[of P s] by linarith
  then have "a \<le> length (take i s)" using i(1) by simp
  moreover have "s = take i s @ s'" using i(3) by simp
  ultimately show "g' = g \<and> (\<exists>p. a \<le> length p \<and> s = p @ s' \<and> (\<forall>c\<in>set p. P c))"
    using take_le_takeWhile[OF i(2)] i(4) by blast
next
  assume "g' = g \<and> (\<exists>p. a \<le> length p \<and> s = p @ s' \<and> (\<forall>c\<in>set p. P c))"
  then obtain p where p: "g' = g" "a \<le> length p" "s = p @ s'" "\<forall>c\<in>set p. P c" by blast
  have "length p \<le> length (takeWhile P s)" using length_le_takeWhile[OF p(4)] p(3) by simp
  moreover have "s' = drop (length p) s" using p(3) by simp
  ultimately have "(s', g') \<in> (\<lambda>i. (drop i s, g)) ` {a ..< Suc (length (takeWhile P s))}"
    using p(1,2) by (intro image_eqI[where x="length p"]) auto
  then show "(s', g') \<in> set (map (\<lambda>i. (drop i s, g)) (rev [a ..< Suc (length (takeWhile P s))]))"
    by (simp only: set_map set_rev set_upt)
qed

lemma mem_Lit: "(s', g') \<in> set (matches (Lit l) s g) \<longleftrightarrow> s = l @ s' \<and> g' = g"
proof -
  have "take (length l) s = l \<and> s' = drop (length l) s \<longleftrightarrow> s = l @ s'"
    by (metis append_eq_conv_conj append_take_drop_id)
  then show ?thesis by auto
qed

lemma mem_Star:
  "(s', g') \<in> set (matches (Star k) s g) \<longleftrightarrow> g' = g \<and> (\<exists>p. s = p @ s' \<and> (\<forall>c\<in>set p. in_cls k c))"
  using mem_repeat[of s' g' s g 0 "in_cls k"] by simp

lemma mem_Plus:
  "(s', g') \<in> set (matches (Plus k) s g) \<longleftrightarrow>
     g' = g \<and> (\<exists>p. p \<noteq> [] \<and> s = p @ s' \<and> (\<forall>c\<in>set p. in_cls k c))"
  using mem_repeat[of s' g' s g 1 "in_cls k"] by (simp add: Suc_le_eq)

lemma mem_Seq:
  "(s', g') \<in> set (matches (Seq a b) s g) \<longleftrightarrow>
     (\<exists>s1 g1. (s1, g1) \<in> set (matches a s g) \<and> (s', g') \<in> set (matches b s1 g1))"
  by auto

lemma mem_Group_raw:
  "(s', g') \<in> set (matches (Group n r) s g) \<longleftrightarrow>
     (\<exists>g1. (s', g1) \<in> set (matches r s g) \<and> g' = g1(n \<mapsto> take (length s - length s') s))"
proof -
  have "set (matches (Group n r) s g) =
      (\<lambda>(s', g'). (s', g'(n \<mapsto> take (length s - length s') s))) ` set (matches r s g)"
    by simp
  then show ?thesis by (auto simp del: matches.simps)
qed

lemma mem_Alt:
  "(s', g') \<in> set (matches (Alt a b) s g) \<longleftrightarrow>
     (s', g') \<in> set (matches a s g) \<or> (s', g') \<in> set (matches b s g)"
  by auto

lemma mem_Opt:
  "(s', g') \<in> set (matches (Opt r) s g) \<longleftrightarrow> (s', g') \<in> set (matches r s g) \<or> (s' = s \<and> g' = g)"
  by auto

declare matches.simps [simp del]

lemma matches_suffix: "(s', g') \<in> set (matches r s g) \<Longrightarrow> \<exists>p. s = p @ s'"
proof (induction r arbitrary: s g s' g')
  case (Lit l) then show ?case by (auto simp: mem_Lit)
next
  case (Star k) then show ?case unfolding mem_Star by blast
next
  case (Plus k) then show ?case unfolding mem_Plus by blast
next
  case (Seq a b)
  then obtain s1 g1 where "(s1, g1) \<in> set (matches a s g)" "(s', g') \<in> set (matches b s1 g1)"
    unfolding mem_Seq by blast
  then show ?case using Seq.IH by (metis append.assoc)
next
  case (Alt a b) then show ?case unfolding mem_Alt by blast
next
  case (Group n r) then show ?case unfolding mem_Group_raw by blast
next
  case (Opt r) then show ?case unfolding mem_Opt by blast
qed

lemma mem_Group:
  "(s', g') \<in> set (matches (Group n r) s g) \<longleftrightarrow>
     (\<exists>p g1. s = p @ s' \<and> (s', g1) \<in> set (matches r s g) \<and> g' = g1(n \<mapsto> p))"
proof
  assume "(s', g') \<in> set (matches (Group n r) s g)"
  then obtain g1 where g1: "(s', g1) \<in> set (matches r s g)"
    "g' = g1(n \<mapsto> take (length s - length s') s)" unfolding mem_Group_raw by blast
  from matches_suffix[OF g1(1)] obtain p where "s = p @ s'" by blast
  then show "\<exists>p g1. s = p @ s' \<and> (s', g1) \<in> set (matches r s g) \<and> g' = g1(n \<mapsto> p)"
    using g1 by auto
next
  assume "\<exists>p g1. s = p @ s' \<and> (s', g1) \<in> set (matches r s g) \<and> g' = g1(n \<mapsto> p)"
  then show "(s', g') \<in> set (matches (Group n r) s g)" unfolding mem_Group_raw by auto
qed

lemmas mem_matches = mem_Lit mem_Star mem_Plus mem_Seq mem_Alt mem_Opt mem_Group

lemma fullmatch_SomeD: "fullmatch r s = Some m \<Longrightarrow> ([], m) \<in> set (matches r s Map.empty)"
proof -
  assume a: "fullmatch r s = Some m"
  then obtain x xs where f: "filter (\<lambda>(s', g'). s' = []) (matches r s Map.empty) = x # xs" "snd x = m"
    by (auto simp: fullmatch_def split: list.splits)
  then have "x \<in> set (filter (\<lambda>(s', g'). s' = []) (matches r s Map.empty))"
    by (metis list.set_intros(1))
  then show ?thesis using f(2) by auto
qed

lemma fullmatch_None_iff:
  "fullmatch r s = None \<longleftrightarrow> (\<forall>m. ([], m) \<notin> set (matches r s Map.empty))"
proof -
  have "fullmatch r s = None \<longleftrightarrow> filter (\<lambda>(s', g'). s' = []) (matches r s Map.empty) = []"
    by (auto simp: fullmatch_def split: list.splits)
  then show ?thesis by (auto simp: filter_empty_conv)
qed

lemma type_and_size_mem:
  assumes "([], m) \<in> set (matches type_and_size_re raw Map.empty)"
  shows "\<exists>b z. raw = b @ ''('' @ z @ '')'' \<and> b \<noteq> [] \<and> (\<forall>c\<in>set b. is_word c) \<and> z \<noteq> []
     \<and> (\<forall>c\<in>set z. c \<noteq> CHR 0x0A) \<and> m = [''type'' \<mapsto> b, ''size'' \<mapsto> z]"
  using assms unfolding type_and_size_re_def seqs.simps mem_matches
  by (elim exE conjE) (simp, blast)

section \<open>Column types\<close>

lemma split_type_cases:
  "(fullmatch type_and_size_re raw = None \<and> split_type raw = (raw, None)) \<or>
   (\<exists>b z. raw = b @ ''('' @ z @ '')'' \<and> b \<noteq> [] \<and> (\<forall>c\<in>set b. is_word c) \<and> z \<noteq> []
       \<and> (\<forall>c\<in>set z. c \<noteq> CHR 0x0A) \<and> split_type raw = (b, Some z))"
proof (cases "fullmatch type_and_size_re raw")
  case None
  then show ?thesis by (simp add: split_type_def)
next
  case (Some m)
  from type_and_size_mem[OF fullmatch_SomeD[OF Some]] obtain b z where
    bz: "raw = b @ ''('' @ z @ '')''" "b \<noteq> []" "\<forall>c\<in>set b. is_word c" "z \<noteq> []"
      "\<forall>c\<in>set z. c \<noteq> CHR 0x0A" "m = [''type'' \<mapsto> b, ''size'' \<mapsto> z]"
    by blast
  have "grp m ''type'' = b" "m ''size'' = Some z"
    unfolding bz(6) grp_def by simp_all
  then have "split_type raw = (b, Some z)"
    using Some by (simp add: split_type_def)
  then show ?thesis using bz(1-5) by blast
qed

lemma split_type_size:
  assumes "split_type raw = (b, Some z)"
  shows "raw = b @ ''('' @ z @ '')'' \<and> b \<noteq> [] \<and> (\<forall>c\<in>set b. is_word c) \<and> z \<noteq> []
     \<and> (\<forall>c\<in>set z. c \<noteq> CHR 0x0A)"
  using split_type_cases[of raw] assms by fastforce

lemma split_type_no_size:
  assumes "split_type raw = (b, None)"
  shows "b = raw"
  using split_type_cases[of raw] assms by fastforce

lemma compare_column_type_unfold:
  assumes "get_column (expected self) t c = Some ce" "get_column (actual self) t c = Some ca"
    "split_type (col_type ce) = (e_type, e_size)" "split_type (col_type ca) = (a_type, a_size)"
  shows "compare_column_type self t c =
     (if \<exists>types\<in>set (equivalent_types self). e_type \<in> set types \<and> a_type \<in> set types then skip
      else if e_type \<noteq> a_type then print (ColumnTypeMismatch t c (col_type ca) (col_type ce))
      else if e_size \<noteq> a_size then print (ColumnTypeSizeMismatch t c (col_type ca) (col_type ce))
      else skip)"
  unfolding compare_column_type_def
  by (simp only: assms option.case Let_def prod.case list_ex_iff)

text \<open>
  Claim C3, as amended. For a column that both schemas have, each raw type is split
  into a base type and the size in parentheses (no size when the pattern does not
  match; with a size, the raw type is the base type, the size in parentheses after it).
  When some configured equivalence set holds both base types nothing is reported and the
  sizes are not compared. Otherwise a type mismatch is reported when the base types
  differ, and when they are equal a size mismatch is reported exactly when the sizes
  differ. At most one of the two findings is reported for a column. Expected
  \<open>numeric(10,2)\<close> against actual \<open>numeric(10,4)\<close> with no equivalence set gives the
  one finding \<open>type size mismatch\<close>.
\<close>

theorem column_type_comparison:
  assumes "get_column (expected self) t c = Some ce" "get_column (actual self) t c = Some ca"
    "split_type (col_type ce) = (e_type, e_size)" "split_type (col_type ca) = (a_type, a_size)"
  shows "(\<forall>z. e_size = Some z \<longrightarrow> col_type ce = e_type @ ''('' @ z @ '')'')
       \<and> (e_size = None \<longrightarrow> e_type = col_type ce)
       \<and> (\<forall>z. a_size = Some z \<longrightarrow> col_type ca = a_type @ ''('' @ z @ '')'')
       \<and> (a_size = None \<longrightarrow> a_type = col_type ca)
       \<and> ((\<exists>types\<in>set (equivalent_types self). e_type \<in> set types \<and> a_type \<in> set types) \<longrightarrow>
            compare_column_type self t c = ([], None))
       \<and> (\<not> (\<exists>types\<in>set (equivalent_types self). e_type \<in> set types \<and> a_type \<in> set types) \<longrightarrow>
            compare_column_type self t c =
              (if e_type \<noteq> a_type then [ColumnTypeMismatch t c (col_type ca) (col_type ce)]
               else if e_size \<noteq> a_size then [ColumnTypeSizeMismatch t c (col_type ca) (col_type ce)]
               else [], None))
       \<and> length (fst (compare_column_type self t c)) \<le> 1
       \<and> compare numeric_example =
           ([ColumnTypeSizeMismatch ''products'' ''price'' ''numeric(10,4)'' ''numeric(10,2)''], None)
       \<and> printed (compare numeric_example) =
           [''products.price: type size mismatch: numeric(10,4) != numeric(10,2)'']"
proof -
  have e1: "\<forall>z. e_size = Some z \<longrightarrow> col_type ce = e_type @ ''('' @ z @ '')''"
    using split_type_size[of "col_type ce" e_type] assms(3) by blast
  have e2: "e_size = None \<longrightarrow> e_type = col_type ce"
    using split_type_no_size[of "col_type ce" e_type] assms(3) by blast
  have a1: "\<forall>z. a_size = Some z \<longrightarrow> col_type ca = a_type @ ''('' @ z @ '')''"
    using split_type_size[of "col_type ca" a_type] assms(4) by blast
  have a2: "a_size = None \<longrightarrow> a_type = col_type ca"
    using split_type_no_size[of "col_type ca" a_type] assms(4) by blast
  note u = compare_column_type_unfold[OF assms]
  have n1: "compare numeric_example =
           ([ColumnTypeSizeMismatch ''products'' ''price'' ''numeric(10,4)'' ''numeric(10,2)''], None)"
    by code_simp
  have n2: "printed (compare numeric_example) =
           [''products.price: type size mismatch: numeric(10,4) != numeric(10,2)'']"
    by code_simp
  have l: "length (fst (compare_column_type self t c)) \<le> 1"
    by (simp add: u)
  have q: "(\<exists>types\<in>set (equivalent_types self). e_type \<in> set types \<and> a_type \<in> set types) \<longrightarrow>
            compare_column_type self t c = ([], None)"
    by (simp add: u skip_def)
  have r: "\<not> (\<exists>types\<in>set (equivalent_types self). e_type \<in> set types \<and> a_type \<in> set types) \<longrightarrow>
            compare_column_type self t c =
              (if e_type \<noteq> a_type then [ColumnTypeMismatch t c (col_type ca) (col_type ce)]
               else if e_size \<noteq> a_size then [ColumnTypeSizeMismatch t c (col_type ca) (col_type ce)]
               else [], None)"
    by (simp add: u skip_def print_def)
  show ?thesis
    by (intro conjI) (fact e1, fact e2, fact a1, fact a2, fact q, fact r, fact l, fact n1, fact n2)
qed

theorem column_type_comparison_witness:
  "get_column (expected numeric_example) ''products'' ''price'' = Some (price_column ''numeric(10,2)'')
   \<and> get_column (actual numeric_example) ''products'' ''price'' = Some (price_column ''numeric(10,4)'')
   \<and> split_type (col_type (price_column ''numeric(10,2)'')) = (''numeric'', Some ''10,2'')
   \<and> split_type (col_type (price_column ''numeric(10,4)'')) = (''numeric'', Some ''10,4'')
   \<and> compare_column_type numeric_example ''products'' ''price'' =
       ([ColumnTypeSizeMismatch ''products'' ''price'' ''numeric(10,4)'' ''numeric(10,2)''], None)"
proof -
  have h1: "get_column (expected numeric_example) ''products'' ''price'' = Some (price_column ''numeric(10,2)'')"
    by code_simp
  have h2: "get_column (actual numeric_example) ''products'' ''price'' = Some (price_column ''numeric(10,4)'')"
    by code_simp
  have h3: "split_type (col_type (price_column ''numeric(10,2)'')) = (''numeric'', Some ''10,2'')"
    by code_simp
  have h4: "split_type (col_type (price_column ''numeric(10,4)'')) = (''numeric'', Some ''10,4'')"
    by code_simp
  have e: "equivalent_types numeric_example = []"
    by (simp add: numeric_example_def Comparator_def)
  have t: "col_type (price_column ''numeric(10,2)'') = ''numeric(10,2)''"
    "col_type (price_column ''numeric(10,4)'') = ''numeric(10,4)''"
    by (simp_all add: price_column_def)
  from column_type_comparison [OF h1 h2 h3 h4]
  have "\<not> (\<exists>types\<in>set (equivalent_types numeric_example). ''numeric'' \<in> set types \<and> ''numeric'' \<in> set types) \<longrightarrow>
      compare_column_type numeric_example ''products'' ''price'' =
        (if ''numeric'' \<noteq> ''numeric''
         then [ColumnTypeMismatch ''products'' ''price'' (col_type (price_column ''numeric(10,4)''))
                 (col_type (price_column ''numeric(10,2)''))]
         else if Some ''10,2'' \<noteq> Some ''10,4''
         then [ColumnTypeSizeMismatch ''products'' ''price'' (col_type (price_column ''numeric(10,4)''))
                 (col_type (price_column ''numeric(10,2)''))]
         else [], None)"
    by (elim conjE)
  then have "compare_column_type numeric_example ''products'' ''price'' =
       ([ColumnTypeSizeMismatch ''products'' ''price'' ''numeric(10,4)'' ''numeric(10,2)''], None)"
    by (simp add: e t)
  then show ?thesis using h1 h2 h3 h4 by simp
qed

text \<open>
  Both base types are \<open>varchar\<close>, which a configured equivalence set holds, and the
  sizes 10 and 20 differ: no size mismatch is reported.
\<close>

theorem column_type_comparison_counterexample:
  "get_column (expected varchar_example) ''products'' ''price'' = Some (price_column ''varchar(10)'')
   \<and> get_column (actual varchar_example) ''products'' ''price'' = Some (price_column ''varchar(20)'')
   \<and> split_type ''varchar(10)'' = (''varchar'', Some ''10'')
   \<and> split_type ''varchar(20)'' = (''varchar'', Some ''20'')
   \<and> equivalent_types varchar_example = [[''varchar'', ''text'']]
   \<and> compare_column_type varchar_example ''products'' ''price'' = ([], None)
   \<and> compare varchar_example = ([], None)"
  by code_simp

text \<open>
  Claim C6. When one configured equivalence set holds the type names \<open>A\<close> and \<open>B\<close>,
  in whatever order, a column whose expected base type is \<open>A\<close> and whose actual base
  type is \<open>B\<close> gets no type finding, and neither does it with the two sides exchanged.
\<close>

theorem equivalent_types_symmetric:
  assumes "types \<in> set eqs" "A \<in> set types" "B \<in> set types"
    "get_column e t c = Some ce" "get_column a t c = Some ca"
    "fst (split_type (col_type ce)) = A" "fst (split_type (col_type ca)) = B"
  shows "compare_column_type (Comparator e a eqs) t c = ([], None)
       \<and> compare_column_type (Comparator a e eqs) t c = ([], None)"
proof -
  obtain e_size a_size where s: "split_type (col_type ce) = (A, e_size)"
    "split_type (col_type ca) = (B, a_size)"
    using assms(6,7) by (cases "split_type (col_type ce)"; cases "split_type (col_type ca)") auto
  have x: "\<exists>types\<in>set eqs. A \<in> set types \<and> B \<in> set types" using assms(1-3) by blast
  have y: "\<exists>types\<in>set eqs. B \<in> set types \<and> A \<in> set types" using assms(1-3) by blast
  have "compare_column_type (Comparator e a eqs) t c = skip"
    using compare_column_type_unfold[of "Comparator e a eqs" t c ce ca A e_size B a_size] assms(4,5) s x
    by (simp add: Comparator_def)
  moreover have "compare_column_type (Comparator a e eqs) t c = skip"
    using compare_column_type_unfold[of "Comparator a e eqs" t c ca ce B a_size A e_size] assms(4,5) s y
    by (simp add: Comparator_def)
  ultimately show ?thesis by (simp add: skip_def)
qed

theorem equivalent_types_symmetric_witness:
  "compare_column_type
     (Comparator (InspectedSchema [products_table ''timestamptz'']) (InspectedSchema [products_table ''timestamp(6)''])
        [[''int4'', ''serial''], [''timestamp'', ''timestamptz'']]) ''products'' ''price'' = ([], None)
   \<and> compare_column_type
     (Comparator (InspectedSchema [products_table ''timestamp(6)'']) (InspectedSchema [products_table ''timestamptz''])
        [[''int4'', ''serial''], [''timestamp'', ''timestamptz'']]) ''products'' ''price'' = ([], None)"
proof -
  have h1: "[''timestamp'', ''timestamptz''] \<in> set [[''int4'', ''serial''], [''timestamp'', ''timestamptz'']]"
    by simp
  have h2: "''timestamptz'' \<in> set [''timestamp'', ''timestamptz'']" by simp
  have h3: "''timestamp'' \<in> set [''timestamp'', ''timestamptz'']" by simp
  have h4: "get_column (InspectedSchema [products_table ''timestamptz'']) ''products'' ''price'' =
      Some (price_column ''timestamptz'')" by code_simp
  have h5: "get_column (InspectedSchema [products_table ''timestamp(6)'']) ''products'' ''price'' =
      Some (price_column ''timestamp(6)'')" by code_simp
  have h6: "fst (split_type (col_type (price_column ''timestamptz''))) = ''timestamptz''" by code_simp
  have h7: "fst (split_type (col_type (price_column ''timestamp(6)''))) = ''timestamp''" by code_simp
  show ?thesis
    by (rule equivalent_types_symmetric [OF h1 h2 h3 h4 h5 h6 h7])
qed

section \<open>Characters beyond ASCII\<close>

text \<open>
  An index name and a base type with an accented letter are matched by \<open>\w+\<close>; a
  no-break space ends \<open>\S+\<close>, so that a definition with one in the table name is not
  recognized.
\<close>

lemma beyond_ascii_classes:
  "index_recognized (''CREATE INDEX idx_'' @ [CHR 0xE9] @ '' ON accounts USING btree (id)'')"
  "\<not> index_recognized (''CREATE INDEX i ON a'' @ [CHR 0xA0] @ ''b USING btree (c)'')"
  "split_type (''num'' @ [CHR 0xE9] @ ''ro(10)'') = (''num'' @ [CHR 0xE9] @ ''ro'', Some ''10'')"
  by code_simp+

lemma beyond_ascii_runs:
  "compare accented_name_example = ([TableNotFound ''orders''], None)"
  "compare no_break_space_example =
     ([], Some (NotImplementedError
        (''Cannot parse index definition: CREATE INDEX i ON a'' @ [CHR 0xA0] @ ''b USING btree (c)'')))"
  "compare accented_type_example =
     ([ColumnTypeSizeMismatch ''products'' ''price'' (''num'' @ [CHR 0xE9] @ ''ro(20)'')
         (''num'' @ [CHR 0xE9] @ ''ro(10)'')], None)"
  "compare accented_equivalence_example = ([], None)"
  by code_simp+

section \<open>Constraints of a table\<close>

lemma dict_last:
  assumes "kvs = pre @ (k, v) # post" "k \<notin> fst ` set post"
  shows "dict kvs k = Some v"
proof -
  have "map_of (rev post) k = None" using assms(2) by (simp add: map_of_eq_None_iff)
  then show ?thesis
    unfolding dict_map_of assms(1) by (simp add: map_add_def)
qed

lemma compare_constraint_fst:
  "fst (compare_constraint n em am key) =
     (case em key of
        None \<Rightarrow> [ConstraintNotExpected n key]
      | Some ee \<Rightarrow>
     (case am key of
        None \<Rightarrow> [ConstraintNotFound n key]
      | Some ae \<Rightarrow> if ee \<noteq> ae then [ConstraintMismatch n key ae ee] else []))"
  by (simp add: compare_constraint_def split: option.splits)

lemma constraint_finding_one:
  fixes em am :: "string \<rightharpoonup> string option" and n :: string
  defines "F \<equiv> \<lambda>key. (case em key of
        None \<Rightarrow> [ConstraintNotExpected n key]
      | Some ee \<Rightarrow>
     (case am key of
        None \<Rightarrow> [ConstraintNotFound n key]
      | Some ae \<Rightarrow> if ee \<noteq> ae then [ConstraintMismatch n key ae ee] else []))"
  shows "ConstraintNotExpected n key \<in> set (F k) \<longleftrightarrow> k = key \<and> em key = None"
    and "ConstraintNotFound n key \<in> set (F k) \<longleftrightarrow> k = key \<and> em key \<noteq> None \<and> am key = None"
    and "ConstraintMismatch n key ae ee \<in> set (F k) \<longleftrightarrow>
           k = key \<and> em key = Some ee \<and> am key = Some ae \<and> ee \<noteq> ae"
  unfolding F_def by (cases "em k"; cases "am k"; auto)+

lemma constraint_findings_mem:
  fixes em am :: "string \<rightharpoonup> string option" and n :: string
  defines "F \<equiv> \<lambda>key. (case em key of
        None \<Rightarrow> [ConstraintNotExpected n key]
      | Some ee \<Rightarrow>
     (case am key of
        None \<Rightarrow> [ConstraintNotFound n key]
      | Some ae \<Rightarrow> if ee \<noteq> ae then [ConstraintMismatch n key ae ee] else []))"
  shows "ConstraintNotExpected n key \<in> set (concat (map F keys)) \<longleftrightarrow> key \<in> set keys \<and> em key = None"
    and "ConstraintNotFound n key \<in> set (concat (map F keys)) \<longleftrightarrow>
           key \<in> set keys \<and> em key \<noteq> None \<and> am key = None"
    and "ConstraintMismatch n key ae ee \<in> set (concat (map F keys)) \<longleftrightarrow>
           key \<in> set keys \<and> em key = Some ee \<and> am key = Some ae \<and> ee \<noteq> ae"
  unfolding F_def set_concat set_map UN_iff image_iff bex_simps constraint_finding_one
  by blast+

text \<open>
  Claim C8. In the comparison of the constraints of a table, the normalized
  (key, extra) pairs of each side are collapsed into a dictionary from key to extra. Of
  two pairs of one side with the same key, the extra of the later one is the value
  stored (when no pair after it has the key); a key is absent from the dictionary
  exactly when no pair has it. The findings are those of the distinct keys in sorted
  order, computed from the two dictionaries: \<open>constraint not expected\<close> for a key of
  the actual side only, \<open>constraint not found\<close> for a key of the expected side only,
  and a mismatch exactly when the two dictionaries hold different extras for the key.
  The extra that a mismatch reports for a side is the overriding one, never the
  overridden one.
\<close>

theorem constraint_maps_last_wins:
  assumes te: "get_table (expected self) n = Some te"
    and ta: "get_table (actual self) n = Some ta"
    and pe: "comprehension (\<lambda>c. normalize_constraint_definition (con_def c)) (tbl_constraints te) =
               Inr expected_pairs"
    and pa: "comprehension (\<lambda>c. normalize_constraint_definition (con_def c)) (tbl_constraints ta) =
               Inr actual_pairs"
  shows "list_all2 (\<lambda>c p. normalize_constraint_definition (con_def c) = Inr p)
           (tbl_constraints te) expected_pairs
       \<and> list_all2 (\<lambda>c p. normalize_constraint_definition (con_def c) = Inr p)
           (tbl_constraints ta) actual_pairs
       \<and> (\<forall>(pairs :: (string \<times> string option) list) pre key extra1 mid extra2 post.
             pairs = pre @ (key, extra1) # mid @ (key, extra2) # post \<and> key \<notin> fst ` set post \<longrightarrow>
             dict pairs key = Some extra2)
       \<and> (\<forall>key. dict expected_pairs key = None \<longleftrightarrow> key \<notin> fst ` set expected_pairs)
       \<and> (\<forall>key. dict actual_pairs key = None \<longleftrightarrow> key \<notin> fst ` set actual_pairs)
       \<and> compare_table_constraints self n =
           (concat (map (\<lambda>key.
              case dict expected_pairs key of
                None \<Rightarrow> [ConstraintNotExpected n key]
              | Some expected_extra \<Rightarrow>
             (case dict actual_pairs key of
                None \<Rightarrow> [ConstraintNotFound n key]
              | Some actual_extra \<Rightarrow>
                  if expected_extra \<noteq> actual_extra
                  then [ConstraintMismatch n key actual_extra expected_extra] else []))
              (sorted_set (map fst expected_pairs @ map fst actual_pairs))), None)
       \<and> distinct (sorted_set (map fst expected_pairs @ map fst actual_pairs))
       \<and> (\<forall>key. ConstraintNotExpected n key \<in> set (fst (compare_table_constraints self n)) \<longleftrightarrow>
             key \<in> fst ` set actual_pairs \<and> key \<notin> fst ` set expected_pairs)
       \<and> (\<forall>key. ConstraintNotFound n key \<in> set (fst (compare_table_constraints self n)) \<longleftrightarrow>
             key \<in> fst ` set expected_pairs \<and> key \<notin> fst ` set actual_pairs)
       \<and> (\<forall>key actual_extra expected_extra.
             ConstraintMismatch n key actual_extra expected_extra
               \<in> set (fst (compare_table_constraints self n)) \<longleftrightarrow>
             dict expected_pairs key = Some expected_extra \<and> dict actual_pairs key = Some actual_extra
             \<and> expected_extra \<noteq> actual_extra)
       \<and> (\<forall>pre key extra1 mid extra2 post actual_extra.
             expected_pairs = pre @ (key, extra1) # mid @ (key, extra2) # post \<and>
             key \<notin> fst ` set post \<and> dict actual_pairs key = Some actual_extra \<longrightarrow>
             (ConstraintMismatch n key actual_extra extra2
                \<in> set (fst (compare_table_constraints self n)) \<longleftrightarrow> extra2 \<noteq> actual_extra) \<and>
             (extra1 \<noteq> extra2 \<longrightarrow>
                ConstraintMismatch n key actual_extra extra1
                  \<notin> set (fst (compare_table_constraints self n))))
       \<and> (\<forall>pre key extra1 mid extra2 post expected_extra.
             actual_pairs = pre @ (key, extra1) # mid @ (key, extra2) # post \<and>
             key \<notin> fst ` set post \<and> dict expected_pairs key = Some expected_extra \<longrightarrow>
             (ConstraintMismatch n key extra2 expected_extra
                \<in> set (fst (compare_table_constraints self n)) \<longleftrightarrow> expected_extra \<noteq> extra2) \<and>
             (extra1 \<noteq> extra2 \<longrightarrow>
                ConstraintMismatch n key extra1 expected_extra
                  \<notin> set (fst (compare_table_constraints self n))))"
proof -
  let ?keys = "sorted_set (map fst expected_pairs @ map fst actual_pairs)"
  let ?F = "\<lambda>key.
              case dict expected_pairs key of
                None \<Rightarrow> [ConstraintNotExpected n key]
              | Some expected_extra \<Rightarrow>
             (case dict actual_pairs key of
                None \<Rightarrow> [ConstraintNotFound n key]
              | Some actual_extra \<Rightarrow>
                  if expected_extra \<noteq> actual_extra
                  then [ConstraintMismatch n key actual_extra expected_extra] else [])"
  have a: "list_all2 (\<lambda>c p. normalize_constraint_definition (con_def c) = Inr p)
           (tbl_constraints te) expected_pairs"
    using comprehension_Inr_map[OF pe] .
  have b: "list_all2 (\<lambda>c p. normalize_constraint_definition (con_def c) = Inr p)
           (tbl_constraints ta) actual_pairs"
    using comprehension_Inr_map[OF pa] .
  have last_wins: "\<And>(pairs :: (string \<times> string option) list) pre key extra1 mid extra2 post.
      pairs = pre @ (key, extra1) # mid @ (key, extra2) # post \<Longrightarrow> key \<notin> fst ` set post \<Longrightarrow>
      dict pairs key = Some extra2"
  proof -
    fix pairs pre :: "(string \<times> string option) list" and key extra1 mid extra2 post
    assume h: "pairs = pre @ (key, extra1) # mid @ (key, extra2) # post" and q: "key \<notin> fst ` set post"
    have p: "pairs = (pre @ (key, extra1) # mid) @ (key, extra2) # post" using h by simp
    show "dict pairs key = Some extra2" by (rule dict_last[OF p q])
  qed
  have c: "\<forall>(pairs :: (string \<times> string option) list) pre key extra1 mid extra2 post.
             pairs = pre @ (key, extra1) # mid @ (key, extra2) # post \<and> key \<notin> fst ` set post \<longrightarrow>
             dict pairs key = Some extra2"
  proof (intro allI impI)
    fix pairs pre :: "(string \<times> string option) list" and key extra1 mid extra2 post
    assume "pairs = pre @ (key, extra1) # mid @ (key, extra2) # post \<and> key \<notin> fst ` set post"
    then show "dict pairs key = Some extra2"
      using last_wins[of pairs pre key extra1 mid extra2 post] by simp
  qed
  have d: "\<forall>key. dict expected_pairs key = None \<longleftrightarrow> key \<notin> fst ` set expected_pairs"
    by (simp add: dict_None_iff)
  have e: "\<forall>key. dict actual_pairs key = None \<longleftrightarrow> key \<notin> fst ` set actual_pairs"
    by (simp add: dict_None_iff)
  have f: "compare_table_constraints self n = (concat (map ?F ?keys), None)"
    unfolding compare_table_constraints_def
    by (simp only: te ta pe pa option.case sum.case)
       (simp add: for_each_ok compare_constraint_ok compare_constraint_fst)
  have fs: "fst (compare_table_constraints self n) = concat (map ?F ?keys)"
    by (simp add: f)
  have g: "distinct ?keys"
    by (rule sorted_sorted_set)
  have keys: "set ?keys = fst ` set expected_pairs \<union> fst ` set actual_pairs"
    by simp
  have h: "\<forall>key. ConstraintNotExpected n key \<in> set (fst (compare_table_constraints self n)) \<longleftrightarrow>
             key \<in> fst ` set actual_pairs \<and> key \<notin> fst ` set expected_pairs"
  proof
    fix key
    have "ConstraintNotExpected n key \<in> set (concat (map ?F ?keys)) \<longleftrightarrow>
        key \<in> set ?keys \<and> dict expected_pairs key = None"
      by (rule constraint_findings_mem(1))
    then show "ConstraintNotExpected n key \<in> set (fst (compare_table_constraints self n)) \<longleftrightarrow>
             key \<in> fst ` set actual_pairs \<and> key \<notin> fst ` set expected_pairs"
      by (simp only: fs keys dict_None_iff Un_iff) blast
  qed
  have i: "\<forall>key. ConstraintNotFound n key \<in> set (fst (compare_table_constraints self n)) \<longleftrightarrow>
             key \<in> fst ` set expected_pairs \<and> key \<notin> fst ` set actual_pairs"
  proof
    fix key
    have "ConstraintNotFound n key \<in> set (concat (map ?F ?keys)) \<longleftrightarrow>
        key \<in> set ?keys \<and> dict expected_pairs key \<noteq> None \<and> dict actual_pairs key = None"
      by (rule constraint_findings_mem(2))
    then show "ConstraintNotFound n key \<in> set (fst (compare_table_constraints self n)) \<longleftrightarrow>
             key \<in> fst ` set expected_pairs \<and> key \<notin> fst ` set actual_pairs"
      by (simp only: fs keys dict_None_iff Un_iff) blast
  qed
  have j: "\<forall>key actual_extra expected_extra.
             ConstraintMismatch n key actual_extra expected_extra
               \<in> set (fst (compare_table_constraints self n)) \<longleftrightarrow>
             dict expected_pairs key = Some expected_extra \<and> dict actual_pairs key = Some actual_extra
             \<and> expected_extra \<noteq> actual_extra"
  proof (intro allI)
    fix key actual_extra expected_extra
    have m: "ConstraintMismatch n key actual_extra expected_extra \<in> set (concat (map ?F ?keys)) \<longleftrightarrow>
        key \<in> set ?keys \<and> dict expected_pairs key = Some expected_extra \<and>
        dict actual_pairs key = Some actual_extra \<and> expected_extra \<noteq> actual_extra"
      by (rule constraint_findings_mem(3))
    have "dict expected_pairs key = Some expected_extra \<Longrightarrow> key \<in> set ?keys"
      using dict_None_iff[of expected_pairs key] keys by auto
    then show "ConstraintMismatch n key actual_extra expected_extra
               \<in> set (fst (compare_table_constraints self n)) \<longleftrightarrow>
             dict expected_pairs key = Some expected_extra \<and> dict actual_pairs key = Some actual_extra
             \<and> expected_extra \<noteq> actual_extra"
      unfolding fs m by blast
  qed
  have k: "\<forall>pre key extra1 mid extra2 post actual_extra.
             expected_pairs = pre @ (key, extra1) # mid @ (key, extra2) # post \<and>
             key \<notin> fst ` set post \<and> dict actual_pairs key = Some actual_extra \<longrightarrow>
             (ConstraintMismatch n key actual_extra extra2
                \<in> set (fst (compare_table_constraints self n)) \<longleftrightarrow> extra2 \<noteq> actual_extra) \<and>
             (extra1 \<noteq> extra2 \<longrightarrow>
                ConstraintMismatch n key actual_extra extra1
                  \<notin> set (fst (compare_table_constraints self n)))"
  proof (intro allI impI)
    fix pre key extra1 mid extra2 post actual_extra
    assume as: "expected_pairs = pre @ (key, extra1) # mid @ (key, extra2) # post \<and>
             key \<notin> fst ` set post \<and> dict actual_pairs key = Some actual_extra"
    then have de: "dict expected_pairs key = Some extra2"
      using last_wins[of expected_pairs pre key extra1 mid extra2 post] by simp
    show "(ConstraintMismatch n key actual_extra extra2
                \<in> set (fst (compare_table_constraints self n)) \<longleftrightarrow> extra2 \<noteq> actual_extra) \<and>
             (extra1 \<noteq> extra2 \<longrightarrow>
                ConstraintMismatch n key actual_extra extra1
                  \<notin> set (fst (compare_table_constraints self n)))"
      using j de as by simp
  qed
  have l: "\<forall>pre key extra1 mid extra2 post expected_extra.
             actual_pairs = pre @ (key, extra1) # mid @ (key, extra2) # post \<and>
             key \<notin> fst ` set post \<and> dict expected_pairs key = Some expected_extra \<longrightarrow>
             (ConstraintMismatch n key extra2 expected_extra
                \<in> set (fst (compare_table_constraints self n)) \<longleftrightarrow> expected_extra \<noteq> extra2) \<and>
             (extra1 \<noteq> extra2 \<longrightarrow>
                ConstraintMismatch n key extra1 expected_extra
                  \<notin> set (fst (compare_table_constraints self n)))"
  proof (intro allI impI)
    fix pre key extra1 mid extra2 post expected_extra
    assume as: "actual_pairs = pre @ (key, extra1) # mid @ (key, extra2) # post \<and>
             key \<notin> fst ` set post \<and> dict expected_pairs key = Some expected_extra"
    then have da: "dict actual_pairs key = Some extra2"
      using last_wins[of actual_pairs pre key extra1 mid extra2 post] by simp
    show "(ConstraintMismatch n key extra2 expected_extra
                \<in> set (fst (compare_table_constraints self n)) \<longleftrightarrow> expected_extra \<noteq> extra2) \<and>
             (extra1 \<noteq> extra2 \<longrightarrow>
                ConstraintMismatch n key extra1 expected_extra
                  \<notin> set (fst (compare_table_constraints self n)))"
      using j da as by auto
  qed
  show ?thesis
    by (intro conjI)
       (fact a, fact b, fact c, fact d, fact e, fact f, fact g, fact h, fact i, fact j, fact k, fact l)
qed

theorem constraint_maps_last_wins_witness:
  "get_table (expected duplicate_key_example) ''members'' =
     Some (members_table [''FOREIGN KEY (org_id) REFERENCES orgs(id) ON DELETE CASCADE'',
                          ''PRIMARY KEY (id)'',
                          ''FOREIGN KEY (org_id) REFERENCES orgs(id) ON DELETE SET NULL''])
   \<and> get_table (actual duplicate_key_example) ''members'' =
     Some (members_table [''UNIQUE (org_id)'',
                          ''FOREIGN KEY (org_id) REFERENCES orgs(id) ON DELETE CASCADE''])
   \<and> ConstraintMismatch ''members'' ''FOREIGN KEY (org_id) REFERENCES orgs(id)''
         (Some '' ON DELETE CASCADE'') (Some '' ON DELETE SET NULL'')
       \<in> set (fst (compare_table_constraints duplicate_key_example ''members''))
   \<and> ConstraintMismatch ''members'' ''FOREIGN KEY (org_id) REFERENCES orgs(id)''
         (Some '' ON DELETE CASCADE'') (Some '' ON DELETE CASCADE'')
       \<notin> set (fst (compare_table_constraints duplicate_key_example ''members''))
   \<and> compare_table_constraints duplicate_key_example ''members'' =
       ([ConstraintMismatch ''members'' ''FOREIGN KEY (org_id) REFERENCES orgs(id)''
           (Some '' ON DELETE CASCADE'') (Some '' ON DELETE SET NULL''),
         ConstraintNotFound ''members'' ''PRIMARY KEY (id)'',
         ConstraintNotExpected ''members'' ''UNIQUE (org_id)''], None)"
proof -
  let ?te = "members_table [''FOREIGN KEY (org_id) REFERENCES orgs(id) ON DELETE CASCADE'',
                            ''PRIMARY KEY (id)'',
                            ''FOREIGN KEY (org_id) REFERENCES orgs(id) ON DELETE SET NULL'']"
  let ?ta = "members_table [''UNIQUE (org_id)'',
                            ''FOREIGN KEY (org_id) REFERENCES orgs(id) ON DELETE CASCADE'']"
  let ?k = "''FOREIGN KEY (org_id) REFERENCES orgs(id)''"
  let ?pe = "[(?k, Some '' ON DELETE CASCADE''), (''PRIMARY KEY (id)'', None),
              (?k, Some '' ON DELETE SET NULL'')]"
  let ?pa = "[(''UNIQUE (org_id)'', None), (?k, Some '' ON DELETE CASCADE'')]"
  have te: "get_table (expected duplicate_key_example) ''members'' = Some ?te"
    by code_simp
  have ta: "get_table (actual duplicate_key_example) ''members'' = Some ?ta"
    by code_simp
  have pe: "comprehension (\<lambda>c. normalize_constraint_definition (con_def c)) (tbl_constraints ?te) =
      Inr ?pe"
    by code_simp
  have pa: "comprehension (\<lambda>c. normalize_constraint_definition (con_def c)) (tbl_constraints ?ta) =
      Inr ?pa"
    by code_simp
  note t = constraint_maps_last_wins [OF te ta pe pa]
  from t have k: "\<forall>pre key extra1 mid extra2 post actual_extra.
             ?pe = pre @ (key, extra1) # mid @ (key, extra2) # post \<and>
             key \<notin> fst ` set post \<and> dict ?pa key = Some actual_extra \<longrightarrow>
             (ConstraintMismatch ''members'' key actual_extra extra2
                \<in> set (fst (compare_table_constraints duplicate_key_example ''members'')) \<longleftrightarrow>
              extra2 \<noteq> actual_extra) \<and>
             (extra1 \<noteq> extra2 \<longrightarrow>
                ConstraintMismatch ''members'' key actual_extra extra1
                  \<notin> set (fst (compare_table_constraints duplicate_key_example ''members'')))"
    by (elim conjE)
  have da: "dict ?pa ?k = Some (Some '' ON DELETE CASCADE'')"
    by code_simp
  have prem: "?pe = [] @ (?k, Some '' ON DELETE CASCADE'') # [(''PRIMARY KEY (id)'', None)] @
        (?k, Some '' ON DELETE SET NULL'') # [] \<and>
      ?k \<notin> fst ` set ([] :: (string \<times> string option) list) \<and>
      dict ?pa ?k = Some (Some '' ON DELETE CASCADE'')"
    using da by simp
  note r = k[rule_format, OF prem]
  have m1: "ConstraintMismatch ''members'' ?k (Some '' ON DELETE CASCADE'') (Some '' ON DELETE SET NULL'')
       \<in> set (fst (compare_table_constraints duplicate_key_example ''members''))"
    using r by simp
  have m2: "ConstraintMismatch ''members'' ?k (Some '' ON DELETE CASCADE'') (Some '' ON DELETE CASCADE'')
       \<notin> set (fst (compare_table_constraints duplicate_key_example ''members''))"
    using r by simp
  have c: "compare_table_constraints duplicate_key_example ''members'' =
       ([ConstraintMismatch ''members'' ?k (Some '' ON DELETE CASCADE'') (Some '' ON DELETE SET NULL''),
         ConstraintNotFound ''members'' ''PRIMARY KEY (id)'',
         ConstraintNotExpected ''members'' ''UNIQUE (org_id)''], None)"
    by code_simp
  show ?thesis
    by (intro conjI) (fact te, fact ta, fact m1, fact m2, fact c)
qed

section \<open>Index names\<close>

lemma matches_Seq_Lit:
  "matches (Seq (Lit l) r) (l @ s) g = matches r s g"
  by (simp add: matches.simps)

lemma matches_Seq_Lit_fail:
  "take (length l) s \<noteq> l \<Longrightarrow> matches (Seq (Lit l) r) s g = []"
  by (simp add: matches.simps)

lemma concat_map_Nil: "(\<And>x. x \<in> set xs \<Longrightarrow> f x = []) \<Longrightarrow> concat (map f xs) = []"
  by (induction xs) auto

lemma plus_then_lit:
  assumes c: "\<not> in_cls k c"
  shows "matches (Seq (Plus k) (Seq (Lit (c # l)) r)) s g =
     (if takeWhile (in_cls k) s = [] then []
      else matches (Seq (Lit (c # l)) r) (dropWhile (in_cls k) s) g)"
proof -
  let ?n = "length (takeWhile (in_cls k) s)"
  let ?X = "Seq (Lit (c # l)) r"
  have u: "matches (Seq (Plus k) ?X) s g = concat (map (\<lambda>i. matches ?X (drop i s) g) (rev [1 ..< Suc ?n]))"
    by (simp add: matches.simps comp_def del: upt_Suc)
  have short: "\<And>i. i < ?n \<Longrightarrow> matches ?X (drop i s) g = []"
  proof -
    fix i assume i: "i < ?n"
    then have il: "i < length s" using length_takeWhile_le[of "in_cls k" s] by linarith
    have "s ! i = takeWhile (in_cls k) s ! i" using i by (simp add: takeWhile_nth)
    then have "in_cls k (s ! i)" using i by (metis nth_mem set_takeWhileD)
    then have "s ! i \<noteq> c" using c by auto
    moreover have "drop i s = s ! i # drop (Suc i) s" using il by (simp add: Cons_nth_drop_Suc)
    ultimately have "take (length (c # l)) (drop i s) \<noteq> c # l" by simp
    then show "matches ?X (drop i s) g = []" by (rule matches_Seq_Lit_fail)
  qed
  show ?thesis
  proof (cases "?n = 0")
    case True
    then show ?thesis using u by simp
  next
    case False
    then have r: "rev [1 ..< Suc ?n] = ?n # rev [1 ..< ?n]" by (simp add: Suc_le_eq)
    have z: "concat (map (\<lambda>i. matches ?X (drop i s) g) (rev [1 ..< ?n])) = []"
      by (rule concat_map_Nil) (simp add: short)
    have "drop ?n s = dropWhile (in_cls k) s" by (simp add: dropWhile_eq_drop)
    then show ?thesis using False u r z by simp
  qed
qed

lemma index_re_prefix:
  assumes "u = [] \<or> u = '' UNIQUE''"
  shows "matches (Seq (Lit ''CREATE'')
            (Seq (Group ''unique'' (Alt (Lit '' UNIQUE'') (Lit ''''))) (Seq (Lit '' INDEX '') r)))
          (''CREATE'' @ u @ '' INDEX '' @ s) g
       = matches r s (g(''unique'' \<mapsto> u))"
  using assms
proof
  assume "u = []"
  then show ?thesis by (simp add: matches.simps)
next
  assume "u = '' UNIQUE''"
  then show ?thesis by (simp add: matches.simps)
qed

lemma index_re_name:
  assumes u: "u = [] \<or> u = '' UNIQUE''" and n: "n \<noteq> []" "list_all is_word n"
  shows "matches index_def1_re (''CREATE'' @ u @ '' INDEX '' @ n @ rest) g =
     matches (seqs [Lit '' ON '', Group ''table'' (Plus NonSpace),
           Lit '' USING '', Group ''algorithm'' (Alt (Lit ''btree'') (Lit ''gin'')),
           Lit '' ('', Group ''columns'' (Star Dot), Lit '')''])
        (dropWhile is_word rest) (g(''unique'' \<mapsto> u))"
proof -
  have w: "\<not> in_cls Word CHR '' ''" by (simp add: is_word_def)
  have all: "\<forall>c\<in>set n. in_cls Word c" using n(2) by (simp add: list_all_iff)
  have tw: "takeWhile (in_cls Word) (n @ rest) \<noteq> []"
    using n(1) all by (cases n) auto
  have dw: "dropWhile (in_cls Word) (n @ rest) = dropWhile is_word rest"
    using all by (simp add: dropWhile_append2 cong: dropWhile_cong)
  have step: "\<And>r g'. matches (Seq (Plus Word) (Seq (Lit '' ON '') r)) (n @ rest) g' =
      matches (Seq (Lit '' ON '') r) (dropWhile is_word rest) g'"
    using plus_then_lit[OF w, where l = "''ON ''" and s = "n @ rest"] tw dw by simp
  show ?thesis
    unfolding index_def1_re_def seqs.simps index_re_prefix[OF u] step ..
qed

lemma same_but_name_matches:
  assumes "same_but_name d1 d2"
  shows "fullmatch index_def1_re d1 = fullmatch index_def1_re d2"
proof -
  from assms obtain u n1 n2 rest where h: "u = [] \<or> u = '' UNIQUE''"
    "n1 \<noteq> []" "list_all is_word n1" "n2 \<noteq> []" "list_all is_word n2"
    "d1 = ''CREATE'' @ u @ '' INDEX '' @ n1 @ rest" "d2 = ''CREATE'' @ u @ '' INDEX '' @ n2 @ rest"
    unfolding same_but_name_def by blast
  have "matches index_def1_re d1 Map.empty = matches index_def1_re d2 Map.empty"
    unfolding h(6,7) index_re_name[OF h(1,2,3)] index_re_name[OF h(1,4,5)] ..
  then show ?thesis by (simp add: fullmatch_def)
qed

lemma same_but_name_normalize:
  assumes "same_but_name d1 d2" "index_recognized d1"
  shows "normalize_index_definition d2 = normalize_index_definition d1 \<and> index_recognized d2"
  using same_but_name_matches[OF assms(1)] assms(2)
  by (auto simp: normalize_index_definition_def index_recognized_def split: option.splits)

lemma comprehension_cong_all2:
  "list_all2 (\<lambda>x y. f x = h y) xs ys \<Longrightarrow> comprehension f xs = comprehension h ys"
  by (induction xs ys rule: list_all2_induct) (simp_all split: sum.splits)

lemma list_all2_mono_set:
  "list_all2 P xs ys \<Longrightarrow> (\<And>x y. x \<in> set xs \<Longrightarrow> P x y \<Longrightarrow> Q x y) \<Longrightarrow> list_all2 Q xs ys"
  by (induction xs ys rule: list_all2_induct) auto

text \<open>
  Claim C5. Two index definitions that are identical except for the index name, the
  first of them recognized, normalize to the same value (and the second is recognized
  too). When the index definitions of the two sides of a table are such pairs, the
  comparison of the indexes of the table prints nothing. The definitions
  \<^verbatim>\<open>CREATE INDEX idx_1 ON users USING btree (id)\<close> and
  \<^verbatim>\<open>CREATE INDEX idx_42 ON users USING btree (id)\<close> normalize to the same value and
  a comparison of two schemas that differ in them only prints nothing.
\<close>

theorem index_name_invariant:
  assumes te: "get_table (expected self) n = Some te"
    and ta: "get_table (actual self) n = Some ta"
    and v: "list_all2 (\<lambda>i j. same_but_name (idx_def i) (idx_def j)) (tbl_indexes te) (tbl_indexes ta)"
    and r: "list_all (\<lambda>i. index_recognized (idx_def i)) (tbl_indexes te)"
  shows "(\<forall>d1 d2. same_but_name d1 d2 \<and> index_recognized d1 \<longrightarrow>
            normalize_index_definition d2 = normalize_index_definition d1 \<and> index_recognized d2)
       \<and> compare_table_indexes self n = ([], None)
       \<and> normalize_index_definition ''CREATE INDEX idx_1 ON users USING btree (id)'' =
           Inr ''CREATE INDEX ... ON users USING btree (id)''
       \<and> normalize_index_definition ''CREATE INDEX idx_42 ON users USING btree (id)'' =
           Inr ''CREATE INDEX ... ON users USING btree (id)''
       \<and> compare index_name_example = ([], None)"
proof -
  have a: "\<forall>d1 d2. same_but_name d1 d2 \<and> index_recognized d1 \<longrightarrow>
            normalize_index_definition d2 = normalize_index_definition d1 \<and> index_recognized d2"
    using same_but_name_normalize by blast
  have b: "compare_table_indexes self n = ([], None)"
  proof -
    from indexes_comprehension_cases[of te] r obtain ds where
      ds: "comprehension (\<lambda>i. normalize_index_definition (idx_def i)) (tbl_indexes te) = Inr ds"
      by (auto dest: index_error_unrecognized)
    have "list_all2 (\<lambda>i j. normalize_index_definition (idx_def i) = normalize_index_definition (idx_def j))
        (tbl_indexes te) (tbl_indexes ta)"
    proof (rule list_all2_mono_set[OF v])
      fix i j assume i: "i \<in> set (tbl_indexes te)" and s: "same_but_name (idx_def i) (idx_def j)"
      have "index_recognized (idx_def i)" using r i by (simp add: list_all_iff)
      then show "normalize_index_definition (idx_def i) = normalize_index_definition (idx_def j)"
        using same_but_name_normalize[OF s] by simp
    qed
    then have "comprehension (\<lambda>i. normalize_index_definition (idx_def i)) (tbl_indexes ta) = Inr ds"
      using comprehension_cong_all2[of "\<lambda>i. normalize_index_definition (idx_def i)"
          "\<lambda>i. normalize_index_definition (idx_def i)" "tbl_indexes te" "tbl_indexes ta"] ds
      by simp
    moreover have "for_each (compare_index n ds ds) (sorted_set (ds @ ds)) = skip"
      by (rule for_each_all_skip) (simp add: compare_index_same)
    ultimately show ?thesis
      unfolding compare_table_indexes_def
      by (simp only: te ta ds option.case sum.case) (simp add: skip_def)
  qed
  have c: "normalize_index_definition ''CREATE INDEX idx_1 ON users USING btree (id)'' =
           Inr ''CREATE INDEX ... ON users USING btree (id)''"
    by code_simp
  have d: "normalize_index_definition ''CREATE INDEX idx_42 ON users USING btree (id)'' =
           Inr ''CREATE INDEX ... ON users USING btree (id)''"
    by code_simp
  have e: "compare index_name_example = ([], None)"
    by code_simp
  show ?thesis
    by (intro conjI) (fact a, fact b, fact c, fact d, fact e)
qed

lemma same_but_name_example:
  "same_but_name ''CREATE INDEX idx_1 ON users USING btree (id)''
     ''CREATE INDEX idx_42 ON users USING btree (id)''"
  unfolding same_but_name_def
  apply (rule exI[of _ "[]"])
  apply (rule exI[of _ "''idx_1''"])
  apply (rule exI[of _ "''idx_42''"])
  apply (rule exI[of _ "'' ON users USING btree (id)''"])
  apply (simp add: is_word_def)
  done

theorem index_name_invariant_witness:
  "get_table (expected index_name_example) ''users'' =
      Some (users_table ''CREATE INDEX idx_1 ON users USING btree (id)'')
   \<and> get_table (actual index_name_example) ''users'' =
      Some (users_table ''CREATE INDEX idx_42 ON users USING btree (id)'')
   \<and> same_but_name ''CREATE INDEX idx_1 ON users USING btree (id)''
        ''CREATE INDEX idx_42 ON users USING btree (id)''
   \<and> index_recognized ''CREATE INDEX idx_1 ON users USING btree (id)''
   \<and> index_recognized ''CREATE INDEX idx_42 ON users USING btree (id)''
   \<and> normalize_index_definition ''CREATE INDEX idx_42 ON users USING btree (id)'' =
       normalize_index_definition ''CREATE INDEX idx_1 ON users USING btree (id)''
   \<and> compare_table_indexes index_name_example ''users'' = ([], None)"
proof -
  let ?d1 = "''CREATE INDEX idx_1 ON users USING btree (id)''"
  let ?d2 = "''CREATE INDEX idx_42 ON users USING btree (id)''"
  have te: "get_table (expected index_name_example) ''users'' = Some (users_table ?d1)"
    by code_simp
  have ta: "get_table (actual index_name_example) ''users'' = Some (users_table ?d2)"
    by code_simp
  have v: "list_all2 (\<lambda>i j. same_but_name (idx_def i) (idx_def j))
      (tbl_indexes (users_table ?d1)) (tbl_indexes (users_table ?d2))"
    by (simp add: users_table_def same_but_name_example)
  have r1: "index_recognized ?d1" by code_simp
  have r: "list_all (\<lambda>i. index_recognized (idx_def i)) (tbl_indexes (users_table ?d1))"
    by (simp add: users_table_def r1)
  note t = index_name_invariant [OF te ta v r]
  from t have a: "\<forall>d1 d2. same_but_name d1 d2 \<and> index_recognized d1 \<longrightarrow>
            normalize_index_definition d2 = normalize_index_definition d1 \<and> index_recognized d2"
    by (elim conjE)
  from t have b: "compare_table_indexes index_name_example ''users'' = ([], None)"
    by (elim conjE)
  have "same_but_name ?d1 ?d2 \<and> index_recognized ?d1 \<longrightarrow>
      normalize_index_definition ?d2 = normalize_index_definition ?d1 \<and> index_recognized ?d2"
    using a by blast
  then have c: "normalize_index_definition ?d2 = normalize_index_definition ?d1"
    and d: "index_recognized ?d2"
    using same_but_name_example r1 by blast+
  show ?thesis
    by (intro conjI) (fact te, fact ta, fact same_but_name_example, fact r1, fact d, fact c, fact b)
qed

section \<open>Constraint keys\<close>

lemma matches_rest_indep:
  "(t, g') \<in> set (matches r (w @ t) g) \<Longrightarrow> (e, g') \<in> set (matches r (w @ e) g)"
proof (induction r arbitrary: w t g g' e)
  case (Lit l)
  then show ?case by (simp add: mem_Lit)
next
  case (Star k)
  then show ?case by (auto simp: mem_Star)
next
  case (Plus k)
  then show ?case by (auto simp: mem_Plus)
next
  case (Seq a b)
  from Seq.prems obtain s1 g1 where h: "(s1, g1) \<in> set (matches a (w @ t) g)"
    "(t, g') \<in> set (matches b s1 g1)" unfolding mem_Seq by blast
  from matches_suffix[OF h(1)] obtain w1 where w1: "w @ t = w1 @ s1" by blast
  from matches_suffix[OF h(2)] obtain w2 where w2: "s1 = w2 @ t" by blast
  have w: "w = w1 @ w2" using w1 w2 by simp
  have "(w2 @ e, g1) \<in> set (matches a (w1 @ w2 @ e) g)"
    using Seq.IH(1)[of s1 g1 w1 g "w2 @ e"] h(1) w1 by simp
  moreover have "(e, g') \<in> set (matches b (w2 @ e) g1)"
    using Seq.IH(2)[of t g' w2 g1 e] h(2) w2 by simp
  ultimately show ?case unfolding mem_Seq w by auto
next
  case (Alt a b)
  then show ?case unfolding mem_Alt by blast
next
  case (Group n r)
  from Group.prems obtain p g1 where h: "w @ t = p @ t" "(t, g1) \<in> set (matches r (w @ t) g)"
    "g' = g1(n \<mapsto> p)" unfolding mem_Group by blast
  have "p = w" using h(1) by simp
  moreover have "(e, g1) \<in> set (matches r (w @ e) g)" using Group.IH[OF h(2)] .
  ultimately show ?case unfolding mem_Group using h(3) by blast
next
  case (Opt r)
  from Opt.prems have "(t, g') \<in> set (matches r (w @ t) g) \<or> (t = w @ t \<and> g' = g)"
    unfolding mem_Opt .
  then show ?case
  proof
    assume "(t, g') \<in> set (matches r (w @ t) g)"
    then show ?thesis unfolding mem_Opt using Opt.IH by blast
  next
    assume "t = w @ t \<and> g' = g"
    then have "w = []" "g' = g" by simp_all
    then show ?thesis unfolding mem_Opt by simp
  qed
qed

lemma prefers_end_Nil: "filter (\<lambda>(s', g'). dot_only s') ms = [] \<Longrightarrow> prefers_end ms"
  by (simp add: prefers_end_def)

lemma prefers_end_Cons: "prefers_end (([], g) # ms)"
  by (simp add: prefers_end_def dot_only_def)

lemma prefers_end_append:
  "prefers_end xs \<Longrightarrow> prefers_end ys \<Longrightarrow> prefers_end (xs @ ys)"
  by (cases "filter (\<lambda>(s', g'). dot_only s') xs") (auto simp: prefers_end_def)

lemma prefers_end_concat:
  "(\<And>x. x \<in> set xs \<Longrightarrow> prefers_end (f x)) \<Longrightarrow> prefers_end (concat (map f xs))"
proof (induction xs)
  case Nil
  then show ?case by (simp add: prefers_end_def)
next
  case (Cons a xs)
  have "prefers_end (f a)" using Cons.prems by simp
  moreover have "prefers_end (concat (map f xs))" using Cons by simp
  ultimately show ?case by (simp add: prefers_end_append)
qed

lemma ends_with_paren_suffix: "ends_with_paren (w @ t) \<Longrightarrow> ends_with_paren t"
  by (cases "t = []") (auto simp: ends_with_paren_def)

lemma prefers_end_Seq:
  assumes r: "\<And>t g. ends_with_paren t \<Longrightarrow> prefers_end (matches r t g)"
    and s: "ends_with_paren s"
  shows "prefers_end (matches (Seq a r) s g)"
proof -
  have "prefers_end (concat (map (\<lambda>(s', g'). matches r s' g') (matches a s g)))"
  proof (rule prefers_end_concat)
    fix x assume x: "x \<in> set (matches a s g)"
    obtain s1 g1 where x1: "x = (s1, g1)" by (cases x)
    from matches_suffix[of s1 g1 a s g] x x1 obtain w where "s = w @ s1" by blast
    then have "ends_with_paren s1" using s ends_with_paren_suffix by blast
    then show "prefers_end (case x of (s', g') \<Rightarrow> matches r s' g')"
      using r x1 by simp
  qed
  then show ?thesis by (simp add: matches.simps)
qed

lemma dot_only_takeWhile: "dot_only s \<Longrightarrow> takeWhile (in_cls Dot) s = s"
  by (simp add: dot_only_def list_all_iff)

lemma not_dot_only_takeWhile: "\<not> dot_only s \<Longrightarrow> length (takeWhile (in_cls Dot) s) < length s"
proof -
  assume a: "\<not> dot_only s"
  have "takeWhile (in_cls Dot) s \<noteq> s"
    using a by (simp add: dot_only_def list_all_iff takeWhile_eq_all_conv del: in_cls.simps)
  then show ?thesis
    using length_takeWhile_le[of "in_cls Dot" s]
    by (metis le_neq_implies_less takeWhile_eq_take take_all_iff order_refl)
qed

lemma star_dot_paren_prefers_end:
  assumes "ends_with_paren t"
  shows "prefers_end (matches (Seq (Star Dot) (Lit '')'')) t g)"
proof (cases "dot_only t")
  case False
  have "filter (\<lambda>(s', g'). dot_only s') (matches (Seq (Star Dot) (Lit '')'')) t g) = []"
  proof -
    have "\<And>u g'. (u, g') \<in> set (matches (Seq (Star Dot) (Lit '')'')) t g) \<Longrightarrow> \<not> dot_only u"
    proof -
      fix u g' assume "(u, g') \<in> set (matches (Seq (Star Dot) (Lit '')'')) t g)"
      then obtain p where p: "t = p @ '')'' @ u" "\<forall>c\<in>set p. in_cls Dot c"
        unfolding mem_Seq mem_Star mem_Lit by auto
      show "\<not> dot_only u"
      proof
        assume "dot_only u"
        then have "dot_only t" using p by (auto simp: dot_only_def list_all_iff)
        then show False using False by simp
      qed
    qed
    then show ?thesis by (auto simp: filter_empty_conv)
  qed
  then show ?thesis by (rule prefers_end_Nil)
next
  case True
  show ?thesis
  proof (cases "t = []")
    case True
    then show ?thesis by (simp add: matches.simps prefers_end_def)
  next
    case False
    then obtain t0 where t0: "t = t0 @ '')''"
      using assms by (auto simp: ends_with_paren_def) (metis append_butlast_last_id)
    have n: "length (takeWhile (in_cls Dot) t) = Suc (length t0)"
      using dot_only_takeWhile[OF True] t0 by simp
    have "matches (Seq (Star Dot) (Lit '')'')) t g =
        concat (map (\<lambda>i. matches (Lit '')'') (drop i t) g) (rev [0 ..< Suc (Suc (length t0))]))"
      by (simp add: matches.simps n comp_def del: upt_Suc)
    also have "rev [0 ..< Suc (Suc (length t0))] = Suc (length t0) # length t0 # rev [0 ..< length t0]"
      by simp
    finally have "matches (Seq (Star Dot) (Lit '')'')) t g =
        ([], g) # concat (map (\<lambda>i. matches (Lit '')'') (drop i t) g) (rev [0 ..< length t0]))"
      by (simp add: t0 matches.simps)
    then show ?thesis by (simp add: prefers_end_Cons)
  qed
qed

lemma filter_map_none: "(\<And>x. x \<in> set xs \<Longrightarrow> \<not> P (f x)) \<Longrightarrow> filter P (map f xs) = []"
  by (induction xs) auto

lemma opt_group_full:
  "filter (\<lambda>(s', g'). s' = []) (matches (Opt (Group n (Plus Dot))) s g) =
     (if s = [] then [([], g)] else if dot_only s then [([], g(n \<mapsto> s))] else [])"
proof -
  let ?N = "length (takeWhile (in_cls Dot) s)"
  let ?F = "\<lambda>i. (drop i s, g(n \<mapsto> take (length s - length (drop i s)) s))"
  have u: "matches (Opt (Group n (Plus Dot))) s g = map ?F (rev [1 ..< Suc ?N]) @ [(s, g)]"
    by (simp add: matches.simps comp_def del: upt_Suc)
  show ?thesis
  proof (cases "s = []")
    case True
    then show ?thesis by (simp add: matches.simps)
  next
    case False
    note ne = this
    show ?thesis
    proof (cases "dot_only s")
      case True
      have N: "?N = length s" by (simp only: dot_only_takeWhile[OF True])
      have pos: "0 < length s" using ne by simp
      have r: "rev [1 ..< Suc (length s)] = length s # rev [1 ..< length s]"
        using pos by (simp add: Suc_le_eq)
      have z: "filter (\<lambda>(s', g'). s' = []) (map ?F (rev [1 ..< length s])) = []"
        by (rule filter_map_none) auto
      show ?thesis
        unfolding u N r using ne True z by simp
    next
      case False
      have lt: "?N < length s" using not_dot_only_takeWhile[OF False] .
      have z: "filter (\<lambda>(s', g'). s' = []) (map ?F (rev [1 ..< Suc ?N])) = []"
        by (rule filter_map_none) (use lt in auto)
      show ?thesis
        unfolding u using ne False z by simp
    qed
  qed
qed

lemma filter_full_Seq:
  "filter (\<lambda>(s', g'). s' = []) (matches (Seq a b) s g) =
     concat (map (\<lambda>(s1, g1). filter (\<lambda>(s', g'). s' = []) (matches b s1 g1)) (matches a s g))"
  by (simp add: matches.simps filter_concat comp_def case_prod_unfold)

lemma concat_map_filter:
  "(\<And>x. x \<in> set xs \<Longrightarrow> \<not> Q x \<Longrightarrow> f x = []) \<Longrightarrow>
     concat (map f xs) = concat (map f (filter Q xs))"
  by (induction xs) auto

lemma fk_main_prefers_end:
  assumes "ends_with_paren s"
  shows "prefers_end (matches foreign_key_main s g)"
proof -
  have t6: "\<And>t g. ends_with_paren t \<Longrightarrow> prefers_end (matches (Seq (Star Dot) (Lit '')'')) t g)"
    by (rule star_dot_paren_prefers_end)
  have t5: "\<And>t g. ends_with_paren t \<Longrightarrow>
      prefers_end (matches (Seq (Lit ''('') (Seq (Star Dot) (Lit '')''))) t g)"
    by (rule prefers_end_Seq[OF t6])
  have t4: "\<And>t g. ends_with_paren t \<Longrightarrow>
      prefers_end (matches (Seq (Plus NotLParen) (Seq (Lit ''('') (Seq (Star Dot) (Lit '')'')))) t g)"
    by (rule prefers_end_Seq[OF t5])
  have t3: "\<And>t g. ends_with_paren t \<Longrightarrow>
      prefers_end (matches (Seq (Lit '') REFERENCES '')
        (Seq (Plus NotLParen) (Seq (Lit ''('') (Seq (Star Dot) (Lit '')''))))) t g)"
    by (rule prefers_end_Seq[OF t4])
  have t2: "\<And>t g. ends_with_paren t \<Longrightarrow>
      prefers_end (matches (Seq (Plus Dot) (Seq (Lit '') REFERENCES '')
        (Seq (Plus NotLParen) (Seq (Lit ''('') (Seq (Star Dot) (Lit '')'')))))) t g)"
    by (rule prefers_end_Seq[OF t3])
  show ?thesis
    unfolding foreign_key_main_def seqs.simps
    by (rule prefers_end_Seq[OF t2 assms])
qed

lemma fk_main_mem:
  assumes "(s', g') \<in> set (matches foreign_key_main s g)"
  shows "g' = g \<and> (\<exists>w. s = w @ '')'' @ s')"
proof -
  from assms obtain x y z where
    "s = ''FOREIGN KEY ('' @ x @ '') REFERENCES '' @ y @ ''('' @ z @ '')'' @ s'" "g' = g"
    unfolding foreign_key_main_def seqs.simps mem_matches
    by (elim exE conjE) simp
  then have "s = (''FOREIGN KEY ('' @ x @ '') REFERENCES '' @ y @ ''('' @ z) @ '')'' @ s'" "g' = g"
    by simp_all
  then show ?thesis by blast
qed

lemma fk_key_fullmatch:
  assumes m: "([], g0) \<in> set (matches foreign_key_main p Map.empty)"
  shows "fullmatch constraint_def1_re p = Some [''main'' \<mapsto> p]"
proof -
  let ?dot = "\<lambda>(s' :: string, g' :: groups). dot_only s'"
  let ?full = "\<lambda>(s' :: string, g' :: groups). s' = []"
  let ?B = "matches foreign_key_main p Map.empty"
  let ?G = "\<lambda>(s' :: string, g' :: groups). (s', g'(''main'' \<mapsto> take (length p - length s') p))"
  let ?A = "\<lambda>(s1, g1). filter ?full (matches (Opt (Group ''extra'' (Plus Dot))) s1 g1)"
  from fk_main_mem[OF m] have "ends_with_paren p" by (auto simp: ends_with_paren_def)
  then have pe: "prefers_end ?B" by (rule fk_main_prefers_end)
  have "([], g0) \<in> set (filter ?dot ?B)" using m by (simp add: dot_only_def)
  then obtain x xs where f: "filter ?dot ?B = x # xs" by (cases "filter ?dot ?B") auto
  have "x \<in> set (filter ?dot ?B)" unfolding f by simp
  then have "x \<in> set ?B" by simp
  then have "snd x = Map.empty" using fk_main_mem[of "fst x" "snd x" p Map.empty] by simp
  moreover have "fst x = []" using pe f by (simp add: prefers_end_def split: prod.splits)
  ultimately have x: "x = ([], Map.empty)" by (simp add: prod_eq_iff)
  have gd: "filter ?dot (map ?G ?B) = map ?G (filter ?dot ?B)"
    by (simp add: filter_map comp_def case_prod_unfold)
  have grp: "matches (Group ''main'' foreign_key_main) p Map.empty = map ?G ?B"
    by (simp add: matches.simps)
  have A0: "\<And>y. \<not> ?dot y \<Longrightarrow> ?A y = []"
    by (auto simp: opt_group_full dot_only_def)
  have "filter ?full (matches constraint_def1_re p Map.empty) = concat (map ?A (map ?G ?B))"
    unfolding constraint_def1_re_def filter_full_Seq grp ..
  also have "\<dots> = concat (map ?A (filter ?dot (map ?G ?B)))"
    by (rule concat_map_filter) (use A0 in blast)
  also have "\<dots> = concat (map ?A (map ?G (x # xs)))"
    by (simp only: gd f)
  also have "\<dots> = ([], [''main'' \<mapsto> p]) # concat (map ?A (map ?G xs))"
    by (simp add: x opt_group_full)
  finally show ?thesis by (simp add: fullmatch_def)
qed

lemma fk_fullmatch_main:
  assumes "fullmatch constraint_def1_re d = Some m"
  shows "\<exists>p. m ''main'' = Some p \<and> ([], Map.empty) \<in> set (matches foreign_key_main p Map.empty)"
proof -
  from fullmatch_SomeD[OF assms] obtain s1 g1 where
    h: "(s1, g1) \<in> set (matches (Group ''main'' foreign_key_main) d Map.empty)"
       "([], m) \<in> set (matches (Opt (Group ''extra'' (Plus Dot))) s1 g1)"
    unfolding constraint_def1_re_def mem_Seq by blast
  from h(1) obtain p gx where p: "d = p @ s1" "(s1, gx) \<in> set (matches foreign_key_main d Map.empty)"
    "g1 = gx(''main'' \<mapsto> p)"
    unfolding mem_Group by blast
  have "gx = Map.empty" using fk_main_mem[OF p(2)] by simp
  then have "([], Map.empty) \<in> set (matches foreign_key_main (p @ []) Map.empty)"
    using matches_rest_indep[of s1 gx foreign_key_main p Map.empty "[]"] p(1,2) by simp
  moreover have "m ''main'' = Some p"
  proof -
    from h(2) have "([], m) \<in> set (matches (Group ''extra'' (Plus Dot)) s1 g1) \<or> m = g1"
      unfolding mem_Opt by blast
    then show ?thesis
    proof
      assume "([], m) \<in> set (matches (Group ''extra'' (Plus Dot)) s1 g1)"
      then obtain q g2 where q: "([], g2) \<in> set (matches (Plus Dot) s1 g1)" "m = g2(''extra'' \<mapsto> q)"
        unfolding mem_Group by blast
      have "g2 = g1" using q(1) unfolding mem_Plus by blast
      then show ?thesis by (simp add: q(2) p(3))
    next
      assume "m = g1"
      then show ?thesis by (simp add: p(3))
    qed
  qed
  ultimately show ?thesis by simp
qed

lemma group_fullmatch_whole:
  assumes "fullmatch (Group n r) d = Some m"
  shows "m n = Some d"
  using fullmatch_SomeD[OF assms] unfolding mem_Group by auto

text \<open>
  Claim C9. When a constraint definition normalizes to a key and an extra part,
  normalizing the key gives the same key again, with no extra part.
\<close>

theorem constraint_key_idempotent:
  assumes "normalize_constraint_definition d = Inr (key, extra)"
  shows "normalize_constraint_definition key = Inr (key, None)"
proof (cases "fullmatch constraint_def1_re d")
  case (Some m)
  then have k: "key = grp m ''main''"
    using assms by (simp add: normalize_constraint_definition_def)
  from fk_fullmatch_main[OF Some] obtain p where
    p: "m ''main'' = Some p" "([], Map.empty) \<in> set (matches foreign_key_main p Map.empty)"
    by blast
  have "key = p" using k p(1) by (simp add: grp_def)
  then show ?thesis
    using fk_key_fullmatch[OF p(2)] by (simp add: normalize_constraint_definition_def grp_def)
next
  case None
  note n1 = this
  show ?thesis
  proof (cases "fullmatch constraint_def2_re d")
    case (Some m)
    have "m ''main'' = Some d"
      using Some group_fullmatch_whole unfolding constraint_def2_re_def by blast
    then have "key = d" "extra = None"
      using assms n1 Some by (simp_all add: normalize_constraint_definition_def grp_def)
    then show ?thesis using assms by simp
  next
    case None
    note n2 = this
    show ?thesis
    proof (cases "fullmatch constraint_def3_re d")
      case (Some m)
      have "m ''main'' = Some d"
        using Some group_fullmatch_whole unfolding constraint_def3_re_def by blast
      then have "key = d" "extra = None"
        using assms n1 n2 Some by (simp_all add: normalize_constraint_definition_def grp_def)
      then show ?thesis using assms by simp
    next
      case None
      then show ?thesis using assms n1 n2 by (simp add: normalize_constraint_definition_def)
    qed
  qed
qed

theorem constraint_key_idempotent_witness:
  "normalize_constraint_definition ''FOREIGN KEY (org_id) REFERENCES orgs(id) ON DELETE CASCADE'' =
     Inr (''FOREIGN KEY (org_id) REFERENCES orgs(id)'', Some '' ON DELETE CASCADE'')
   \<and> normalize_constraint_definition ''FOREIGN KEY (org_id) REFERENCES orgs(id)'' =
     Inr (''FOREIGN KEY (org_id) REFERENCES orgs(id)'', None)"
proof -
  have h: "normalize_constraint_definition ''FOREIGN KEY (org_id) REFERENCES orgs(id) ON DELETE CASCADE'' =
     Inr (''FOREIGN KEY (org_id) REFERENCES orgs(id)'', Some '' ON DELETE CASCADE'')"
    by code_simp
  show ?thesis
    using constraint_key_idempotent [OF h] h by simp
qed

end
